theory Spec2Isabelle
  imports Complex_Main
begin

section \<open>Data model of morpheas.py\<close>

text \<open>
  The theory embeds the classes \<^verbatim>\<open>Morph\<close>, \<^verbatim>\<open>World\<close> and \<^verbatim>\<open>ButtonMorph\<close> of
  \<^verbatim>\<open>src/morpheas.py\<close>.

  \<^item> Python numbers are modelled as exact reals: every Python \<^verbatim>\<open>int\<close> embeds exactly, and the
    rounding of \<^verbatim>\<open>float\<close> arithmetic is not modelled.
  \<^item> A two-element list \<^verbatim>\<open>[x, y]\<close> is a pair, read with \<open>fst\<close> (index 0) and \<open>snd\<close> (index 1).
    The source never mutates such a list in place (it rebinds the attribute), so the sharing of
    default arguments and of \<^verbatim>\<open>world.mouse_position\<close> is not observable.
  \<^item> The widget hierarchy is a finite tree: a morph owns the list of its children, and the root
    of a live tree is a \<^verbatim>\<open>World\<close>. The references \<^verbatim>\<open>_parent\<close> and \<^verbatim>\<open>_world\<close> are
    not stored: a morph inside a world is named by its address, and its parent chain and its
    world are read off the tree. This is the shape \<^verbatim>\<open>add_morph\<close> builds as long as every
    morph is attached once and no \<^verbatim>\<open>World\<close> is attached below another morph.
  \<^item> Attributes that only the drawing code reads (\<^verbatim>\<open>textures\<close>, \<^verbatim>\<open>image\<close>,
    \<^verbatim>\<open>draw_count\<close>, \<^verbatim>\<open>round_corners...\<close>, \<^verbatim>\<open>draw_area_context\<close>) are left out.
  \<^item> A private attribute \<^verbatim>\<open>_x\<close> of the source is the field \<open>u_x\<close>.
\<close>

type_synonym vec = "real \<times> real"

type_synonym rgba = "real \<times> real \<times> real \<times> real"

text \<open>The list \<^verbatim>\<open>bounds\<close> always has four entries; \<open>b0\<close> .. \<open>b3\<close> are its indices 0 .. 3.\<close>

record box =
  b0 :: real
  b1 :: real
  b2 :: real
  b3 :: real

text \<open>An action is an object of the client with handler methods; the toolkit only calls it.\<close>

datatype action = Action nat

text \<open>
  \<^verbatim>\<open>TextMorph\<close> overrides construction and drawing only, so for the operations below it
  behaves as a plain \<^verbatim>\<open>Morph\<close>.
\<close>

datatype morph_class = MorphClass | ButtonMorphClass

datatype error = ValueError | HostError | InvalidAddress

datatype 'a result = Returned 'a | Raised error

record morph_attrs =
  real_width :: real
  real_height :: real
  real_position :: vec
  u_width :: real
  u_height :: real
  u_position :: vec
  color :: rgba
  handles_mouse_down :: bool
  handles_events :: bool
  handles_mouse_over :: bool
  handles_drag_drop :: bool
  u_is_hidden :: bool
  bounds :: box
  u_name :: string
  scale :: real
  circle :: bool
  drag_drop :: bool
  drag_position :: vec
  active_texture :: "string option"
  on_left_click_action :: "action option"
  on_left_click_released_action :: "action option"
  on_right_click_action :: "action option"
  on_right_click_released_action :: "action option"
  on_mouse_in_action :: "action option"
  on_mouse_out_action :: "action option"
  cls :: morph_class
  hover_glow_mode :: bool

datatype morph = Morph (attrs: morph_attrs) (children: "morph list")

text \<open>
  The address of a morph inside a world: its index in its parent's \<^verbatim>\<open>children\<close>, followed
  by the address of the parent. The world itself has the address \<open>[]\<close>.
\<close>

type_synonym addr = "nat list"

record event =
  etype :: string
  evalue :: string
  mouse_region_x :: real
  mouse_region_y :: real

record region =
  region_x :: real
  region_y :: real
  region_width :: real
  region_height :: real

text \<open>The frame context of the host; only \<^verbatim>\<open>context.region\<close> is read by the event code.\<close>

record frame_context =
  region :: "region option"

text \<open>
  What a dispatch does to the client is recorded in \<open>trace\<close>, which is not an attribute of the
  source: \<open>HandlerRun p h\<close> says that the handler method \<open>h\<close> of the morph at \<open>p\<close> was entered,
  \<open>ActionCall a m p\<close> that method \<open>m\<close> of the action object \<open>a\<close> was called with the morph at
  \<open>p\<close>. An action is a black box: it is assumed not to touch the widget tree.
\<close>

datatype entry = HandlerRun addr string | ActionCall action string addr

record world =
  morph_part :: morph
  consumed_event :: bool
  modal_operator :: int
  mouse_position :: vec
  mouse_position_absolute :: vec
  mouse_cursor_inside :: bool
  window_position :: vec
  window_width :: real
  window_height :: real
  event :: "event option"
  draw_area :: box
  draw_area_position :: vec
  draw_area_width :: real
  draw_area_height :: real
  auto_hide :: bool
  trace :: "entry list"

text \<open>
  What the code takes from outside \<^verbatim>\<open>morpheas.py\<close>: the host (Blender) and the module
  \<^verbatim>\<open>morpheas_tools\<close>, which is not part of the sources at hand. They are parameters.
  \<open>images_load path\<close> says whether \<^verbatim>\<open>bpy.data.images.load(path)\<close> returns;
  \<open>regions4_size\<close> is the width and height of \<^verbatim>\<open>bpy.context.area.regions[4]\<close>, or \<open>None\<close>
  when reading them raises.
\<close>

record env =
  images_load :: "string \<Rightarrow> bool"
  regions4_size :: "(real \<times> real) option"
  pointsDistance :: "real \<Rightarrow> real \<Rightarrow> real \<Rightarrow> real \<Rightarrow> real"
  collisionDetect :: "real \<Rightarrow> real \<Rightarrow> real \<Rightarrow> real \<Rightarrow> real \<Rightarrow> real \<Rightarrow> real \<Rightarrow> real \<Rightarrow> bool"

definition bind_r :: "'a result \<Rightarrow> ('a \<Rightarrow> 'b result) \<Rightarrow> 'b result" where
  "bind_r r f = (case r of Raised e \<Rightarrow> Raised e | Returned v \<Rightarrow> f v)"

section \<open>Construction\<close>

text \<open>The keyword arguments of \<^verbatim>\<open>Morph.__init__\<close> (the rounded-corner ones are left out).\<close>

record kargs =
  k_texture :: "string option"
  k_width :: real
  k_height :: real
  k_position :: vec
  k_color :: rgba
  k_name :: string
  k_on_left_click_action :: "action option"
  k_on_left_click_released_action :: "action option"
  k_on_right_click_action :: "action option"
  k_on_right_click_released_action :: "action option"
  k_on_mouse_in_action :: "action option"
  k_on_mouse_out_action :: "action option"
  k_texture_path :: "string option"
  k_scale :: real
  k_drag_drop :: bool
  k_circle :: bool

definition default_kargs :: kargs where
  "default_kargs =
     \<lparr>k_texture = None, k_width = 100, k_height = 100, k_position = (0, 0),
      k_color = (1, 1, 1, 1), k_name = ''noname'',
      k_on_left_click_action = None, k_on_left_click_released_action = None,
      k_on_right_click_action = None, k_on_right_click_released_action = None,
      k_on_mouse_in_action = None, k_on_mouse_out_action = None,
      k_texture_path = None, k_scale = 1, k_drag_drop = False, k_circle = False\<rparr>"

text \<open>The class attribute \<^verbatim>\<open>Morph.texture_path\<close>.\<close>

definition Morph_texture_path :: string where
  "Morph_texture_path = ''media/graphics/''"

text \<open>
  \<^verbatim>\<open>Morph.__init__\<close>. \<open>Morph_new\<close> is the object the constructor leaves when it does not
  raise. Building \<^verbatim>\<open>bounds\<close> reads the properties \<^verbatim>\<open>width\<close> and \<^verbatim>\<open>height\<close>, which
  raise for a negative \<^verbatim>\<open>real_width\<close> and a negative \<^verbatim>\<open>_height\<close>; \<^verbatim>\<open>load_texture\<close>
  raises when the host cannot load the image, and otherwise leaves \<^verbatim>\<open>active_texture\<close> and
  \<^verbatim>\<open>scale\<close> as they are.
\<close>

definition Morph_new :: "kargs \<Rightarrow> morph" where
  "Morph_new k =
     Morph
       \<lparr>real_width = k_width k, real_height = k_height k, real_position = k_position k,
        u_width = k_width k * k_scale k, u_height = k_height k * k_scale k,
        u_position = (fst (k_position k), snd (k_position k)),
        color = k_color k,
        handles_mouse_down = False, handles_events = False, handles_mouse_over = False,
        handles_drag_drop = k_drag_drop k,
        u_is_hidden = False,
        bounds = \<lparr>b0 = fst (k_position k), b1 = snd (k_position k),
                  b2 = fst (k_position k) + k_width k, b3 = snd (k_position k) + k_height k\<rparr>,
        u_name = k_name k, scale = k_scale k, circle = k_circle k,
        drag_drop = False, drag_position = (0, 0),
        active_texture = k_texture k,
        on_left_click_action = k_on_left_click_action k,
        on_left_click_released_action = k_on_left_click_released_action k,
        on_right_click_action = k_on_right_click_action k,
        on_right_click_released_action = k_on_right_click_released_action k,
        on_mouse_in_action = k_on_mouse_in_action k,
        on_mouse_out_action = k_on_mouse_out_action k,
        cls = MorphClass, hover_glow_mode = False\<rparr> []"

definition Morph_init :: "env \<Rightarrow> kargs \<Rightarrow> morph result" where
  "Morph_init E k =
     (if k_width k < 0 then Raised ValueError
      else if k_height k * k_scale k < 0 then Raised ValueError
      else if (case k_texture k of
                 None \<Rightarrow> False
               | Some n \<Rightarrow> \<not> images_load E
                   ((case k_texture_path k of None \<Rightarrow> Morph_texture_path | Some tp \<Rightarrow> tp) @ n))
      then Raised HostError
      else Returned (Morph_new k))"

text \<open>
  \<^verbatim>\<open>ButtonMorph.__init__(hover_glow_mode, **kargs)\<close>: the \<^verbatim>\<open>Morph\<close> constructor, then
  the assignments of \<open>ButtonMorph_new\<close>.
\<close>

definition ButtonMorph_new :: "bool \<Rightarrow> morph \<Rightarrow> morph" where
  "ButtonMorph_new hgm m =
     Morph ((attrs m)\<lparr>handles_mouse_over := True, handles_events := True,
                      handles_mouse_down := True, cls := ButtonMorphClass,
                      hover_glow_mode := hgm\<rparr>) (children m)"

definition ButtonMorph_init :: "env \<Rightarrow> bool \<Rightarrow> kargs \<Rightarrow> morph result" where
  "ButtonMorph_init E hgm k = bind_r (Morph_init E k) (\<lambda>m. Returned (ButtonMorph_new hgm m))"

text \<open>
  \<^verbatim>\<open>World.__init__(singular, auto_hide, **kargs)\<close>: the \<^verbatim>\<open>Morph\<close> constructor, then the
  assignments of \<open>World_new\<close>: the attributes of the world, and \<^verbatim>\<open>_width\<close> and
  \<^verbatim>\<open>_height\<close> overwritten.
\<close>

definition World_new :: "morph \<Rightarrow> world" where
  "World_new m =
     \<lparr>morph_part = Morph ((attrs m)\<lparr>u_width := 2000, u_height := 2000\<rparr>) (children m),
      consumed_event = False,
      modal_operator = 0,
      mouse_position = (0, 0),
      mouse_position_absolute = (0, 0),
      mouse_cursor_inside = False,
      window_position = (0, 0),
      window_width = 300,
      window_height = 300,
      event = None,
      draw_area = \<lparr>b0 = 0, b1 = 0, b2 = 0, b3 = 0\<rparr>,
      draw_area_position = (0, 0),
      draw_area_width = 300,
      draw_area_height = 300,
      auto_hide = True,
      trace = []\<rparr>"

definition World_init :: "env \<Rightarrow> bool \<Rightarrow> bool \<Rightarrow> kargs \<Rightarrow> world result" where
  "World_init E singular auto_hide_arg k =
     bind_r (Morph_init E k) (\<lambda>m. Returned (World_new m))"

section \<open>Operations on a morph and its subtree\<close>

text \<open>
  The setter of \<^verbatim>\<open>is_hidden\<close>: each child whose flag differs from the value is assigned in
  turn, a child whose flag is the value already is passed over; then the own flag is set.
\<close>

fun is_hidden_set :: "bool \<Rightarrow> morph \<Rightarrow> morph" where
  "is_hidden_set v (Morph a cs) =
     Morph (a\<lparr>u_is_hidden := v\<rparr>)
       (map (\<lambda>c. if u_is_hidden (attrs c) \<noteq> v then is_hidden_set v c else c) cs)"

text \<open>
  \<^verbatim>\<open>Morph.add_morph(self, morph)\<close>: the child is appended and each of the four bounds of
  \<^verbatim>\<open>self\<close> is replaced when the child's reaches further.
\<close>

definition add_morph :: "morph \<Rightarrow> morph \<Rightarrow> morph" where
  "add_morph self m =
     (let mb = bounds (attrs m);
          s0 = bounds (attrs self);
          s1 = (if b0 s0 > b0 mb then s0\<lparr>b0 := b0 mb\<rparr> else s0);
          s2 = (if b1 s1 > b1 mb then s1\<lparr>b1 := b1 mb\<rparr> else s1);
          s3 = (if b2 s2 < b2 mb then s2\<lparr>b2 := b2 mb\<rparr> else s2);
          s4 = (if b3 s3 < b3 mb then s3\<lparr>b3 := b3 mb\<rparr> else s3)
      in Morph ((attrs self)\<lparr>bounds := s4\<rparr>) (children self @ [m]))"

text \<open>
  \<^verbatim>\<open>World.add_morph(self, morph)\<close> repeats the body of \<^verbatim>\<open>Morph.add_morph\<close> with the world
  as the parent.
\<close>

definition World_add_morph :: "world \<Rightarrow> morph \<Rightarrow> world" where
  "World_add_morph W m =
     (let self = morph_part W;
          mb = bounds (attrs m);
          s0 = bounds (attrs self);
          s1 = (if b0 s0 > b0 mb then s0\<lparr>b0 := b0 mb\<rparr> else s0);
          s2 = (if b1 s1 > b1 mb then s1\<lparr>b1 := b1 mb\<rparr> else s1);
          s3 = (if b2 s2 < b2 mb then s2\<lparr>b2 := b2 mb\<rparr> else s2);
          s4 = (if b3 s3 < b3 mb then s3\<lparr>b3 := b3 mb\<rparr> else s3)
      in W\<lparr>morph_part := Morph ((attrs self)\<lparr>bounds := s4\<rparr>) (children self @ [m])\<rparr>)"

text \<open>
  \<^verbatim>\<open>get_child_morph_named\<close>: the loop returns the first child with the name; for any other
  child it calls itself on the child and drops what the call returns.
\<close>

fun get_child_morph_named :: "morph \<Rightarrow> string \<Rightarrow> morph option"
  and get_child_morph_named_loop :: "morph list \<Rightarrow> string \<Rightarrow> morph option" where
  "get_child_morph_named (Morph a cs) n = get_child_morph_named_loop cs n"
| "get_child_morph_named_loop [] n = None"
| "get_child_morph_named_loop (child # rest) n =
     (if u_name (attrs child) = n then Some child
      else (let dropped = get_child_morph_named child n
            in get_child_morph_named_loop rest n))"

text \<open>
  The lookup as the specification words it: the first morph of the subtree, depth-first, the
  morph itself excluded, children in the order they were added, whose name matches.
\<close>

fun find_by_name_spec :: "morph \<Rightarrow> string \<Rightarrow> morph option"
  and find_by_name_spec_list :: "morph list \<Rightarrow> string \<Rightarrow> morph option" where
  "find_by_name_spec (Morph a cs) n = find_by_name_spec_list cs n"
| "find_by_name_spec_list [] n = None"
| "find_by_name_spec_list (child # rest) n =
     (if u_name (attrs child) = n then Some child
      else (case find_by_name_spec child n of
              Some found \<Rightarrow> Some found
            | None \<Rightarrow> find_by_name_spec_list rest n))"

text \<open>All morphs strictly below a morph, depth-first.\<close>

fun descendants :: "morph \<Rightarrow> morph list" where
  "descendants (Morph a cs) = concat (map (\<lambda>c. c # descendants c) cs)"

section \<open>A morph inside a world\<close>

text \<open>The morph at an address, looked up through its parent.\<close>

fun node_at :: "morph \<Rightarrow> addr \<Rightarrow> morph option" where
  "node_at t [] = Some t"
| "node_at t (i # pp) =
     (case node_at t pp of
        None \<Rightarrow> None
      | Some parent \<Rightarrow>
          if i < length (children parent) then Some (children parent ! i) else None)"

text \<open>Replacing the morph at an address; an address that names no morph changes nothing.\<close>

fun update_at :: "addr \<Rightarrow> (morph \<Rightarrow> morph) \<Rightarrow> morph \<Rightarrow> morph" where
  "update_at [] g t = g t"
| "update_at (i # pp) g t =
     update_at pp
       (\<lambda>parent. Morph (attrs parent) ((children parent)[i := g (children parent ! i)])) t"

definition set_attrs :: "addr \<Rightarrow> (morph_attrs \<Rightarrow> morph_attrs) \<Rightarrow> world \<Rightarrow> world" where
  "set_attrs p f W =
     W\<lparr>morph_part := update_at p (\<lambda>m. Morph (f (attrs m)) (children m)) (morph_part W)\<rparr>"

text \<open>
  The parent chain of the morph at an address: \<^verbatim>\<open>self.parent\<close>, its parent, and so on up
  to the world, which comes last. The world has no parent.
\<close>

fun parents :: "morph \<Rightarrow> addr \<Rightarrow> morph_attrs list" where
  "parents t [] = []"
| "parents t (i # pp) =
     (case node_at t pp of None \<Rightarrow> [] | Some parent \<Rightarrow> attrs parent # parents t pp)"

text \<open>\<^verbatim>\<open>self\<close> as the methods below see it: its attributes and its parent chain.\<close>

definition self_at :: "world \<Rightarrow> addr \<Rightarrow> (morph_attrs \<times> morph_attrs list) option" where
  "self_at W p =
     (case node_at (morph_part W) p of
        None \<Rightarrow> None
      | Some m \<Rightarrow> Some (attrs m, parents (morph_part W) p))"

text \<open>\<^verbatim>\<open>get_absolute_scale\<close>: the own scale times that of the parent, if there is one.\<close>

fun get_absolute_scale :: "morph_attrs \<Rightarrow> morph_attrs list \<Rightarrow> real" where
  "get_absolute_scale a [] = scale a"
| "get_absolute_scale a (parent # rest) = scale a * get_absolute_scale parent rest"

text \<open>
  \<^verbatim>\<open>get_absolute_position\<close>. A morph with a parent adds its \<^verbatim>\<open>_position\<close> to the
  parent's absolute position; the morph without a parent is the world, whose override adds
  \<^verbatim>\<open>draw_area_position\<close> to its \<^verbatim>\<open>position\<close>.
\<close>

fun get_absolute_position :: "world \<Rightarrow> morph_attrs \<Rightarrow> morph_attrs list \<Rightarrow> vec" where
  "get_absolute_position W a [] =
     (fst (real_position a) + fst (draw_area_position W),
      snd (real_position a) + snd (draw_area_position W))"
| "get_absolute_position W a (parent # rest) =
     (fst (get_absolute_position W parent rest) + fst (u_position a),
      snd (get_absolute_position W parent rest) + snd (u_position a))"

text \<open>The properties \<^verbatim>\<open>width\<close>, \<^verbatim>\<open>width_scaled\<close>, \<^verbatim>\<open>height\<close>, \<^verbatim>\<open>height_scaled\<close>.\<close>

definition width :: "morph_attrs \<Rightarrow> real result" where
  "width a = (if real_width a < 0 then Raised ValueError else Returned (real_width a))"

definition width_scaled :: "morph_attrs \<Rightarrow> real result" where
  "width_scaled a = (if u_width a < 0 then Raised ValueError else Returned (u_width a))"

definition height :: "morph_attrs \<Rightarrow> real result" where
  "height a = (if u_height a < 0 then Raised ValueError else Returned (real_height a))"

definition height_scaled :: "morph_attrs \<Rightarrow> real result" where
  "height_scaled a = (if u_height a < 0 then Raised ValueError else Returned (u_height a))"

text \<open>
  The setter of \<^verbatim>\<open>width\<close>, for a morph with the parent chain \<open>ps\<close>. It returns the
  attributes the morph has afterwards, also when it raises.
\<close>

definition width_set :: "real \<Rightarrow> morph_attrs \<Rightarrow> morph_attrs list \<Rightarrow> unit result \<times> morph_attrs" where
  "width_set v a ps =
     (if v < 0 then (Raised ValueError, a)
      else (Returned (), a\<lparr>real_width := v, u_width := v * get_absolute_scale a ps\<rparr>))"

definition position_scaled :: "morph_attrs \<Rightarrow> morph_attrs list \<Rightarrow> vec" where
  "position_scaled a ps =
     (fst (real_position a) * get_absolute_scale a ps,
      snd (real_position a) * get_absolute_scale a ps)"

text \<open>The setter of \<^verbatim>\<open>position\<close>.\<close>

definition position_set :: "vec \<Rightarrow> morph_attrs \<Rightarrow> morph_attrs list \<Rightarrow> morph_attrs" where
  "position_set v a ps =
     a\<lparr>real_position := v,
       u_position := (fst v * get_absolute_scale a ps, snd v * get_absolute_scale a ps)\<rparr>"

text \<open>
  The property \<^verbatim>\<open>mouse_over_morph\<close>. The circle compares the distance of the pointer from
  the centre with the radius \<^verbatim>\<open>_width / 2\<close>; the rectangle reads \<^verbatim>\<open>self.width\<close> and
  \<^verbatim>\<open>self.height\<close>, which may raise, and compares strictly.
\<close>

definition mouse_over_morph :: "env \<Rightarrow> world \<Rightarrow> morph_attrs \<Rightarrow> morph_attrs list \<Rightarrow> bool result" where
  "mouse_over_morph E W a ps =
     (if circle a then
        (let ex = fst (mouse_position_absolute W);
             ey = snd (mouse_position_absolute W);
             position_x = fst (get_absolute_position W a ps);
             position_y = snd (get_absolute_position W a ps);
             circleR = u_width a / 2
         in Returned (pointsDistance E (position_x + circleR) (position_y + circleR) ex ey
                        \<le> circleR))
      else
        (let apx1 = fst (get_absolute_position W a ps);
             apy1 = snd (get_absolute_position W a ps)
         in bind_r (width a) (\<lambda>w.
            bind_r (height a) (\<lambda>h.
              (let apx2 = fst (get_absolute_position W a ps) + w;
                   apy2 = snd (get_absolute_position W a ps) + h;
                   ex = fst (mouse_position_absolute W);
                   ey = snd (mouse_position_absolute W)
               in Returned (ex > apx1 \<and> ex < apx2 \<and> ey > apy1 \<and> ey < apy2))))))"

section \<open>Event handlers\<close>

text \<open>
  A handler works on the morph at an address of the world and returns the world afterwards,
  with \<open>Raised\<close> when an exception left it. An address that names no morph has no counterpart
  in the source; it is answered with \<open>InvalidAddress\<close>.
\<close>

definition log_entry :: "entry \<Rightarrow> world \<Rightarrow> world" where
  "log_entry e W = W\<lparr>trace := trace W @ [e]\<rparr>"

definition then_r :: "unit result \<times> world \<Rightarrow> (world \<Rightarrow> unit result \<times> world) \<Rightarrow> unit result \<times> world" where
  "then_r r f = (case r of (Returned u, W) \<Rightarrow> f W | (Raised e, W) \<Rightarrow> (Raised e, W))"

definition when_r :: "bool \<Rightarrow> (world \<Rightarrow> unit result \<times> world) \<Rightarrow> world \<Rightarrow> unit result \<times> world" where
  "when_r c f W = (if c then f W else (Returned (), W))"

definition on_left_click :: "addr \<Rightarrow> world \<Rightarrow> unit result \<times> world" where
  "on_left_click p W0 =
     (let W = log_entry (HandlerRun p ''on_left_click'') W0
      in case self_at W p of
           None \<Rightarrow> (Raised InvalidAddress, W)
         | Some (a, ps) \<Rightarrow>
             (case on_left_click_action a of
                Some act \<Rightarrow> (Returned (), log_entry (ActionCall act ''on_left_click'' p) W)
              | None \<Rightarrow>
                  if \<not> drag_drop a \<and> handles_drag_drop a
                  then (Returned (),
                        set_attrs p (\<lambda>s. s\<lparr>drag_drop := True,
                                             drag_position := mouse_position W\<rparr>) W)
                  else (Returned (), W)))"

definition on_left_click_released :: "addr \<Rightarrow> world \<Rightarrow> unit result \<times> world" where
  "on_left_click_released p W0 =
     (let W = log_entry (HandlerRun p ''on_left_click_released'') W0
      in case self_at W p of
           None \<Rightarrow> (Raised InvalidAddress, W)
         | Some (a, ps) \<Rightarrow>
             (case on_left_click_released_action a of
                Some act \<Rightarrow>
                  (Returned (), log_entry (ActionCall act ''on_left_click_released'' p) W)
              | None \<Rightarrow>
                  if drag_drop a \<and> handles_drag_drop a
                  then (Returned (), set_attrs p (\<lambda>s. s\<lparr>drag_drop := False\<rparr>) W)
                  else (Returned (), W)))"

definition on_right_click :: "addr \<Rightarrow> world \<Rightarrow> unit result \<times> world" where
  "on_right_click p W0 =
     (let W = log_entry (HandlerRun p ''on_right_click'') W0
      in case self_at W p of
           None \<Rightarrow> (Raised InvalidAddress, W)
         | Some (a, ps) \<Rightarrow>
             (case on_right_click_action a of
                Some act \<Rightarrow> (Returned (), log_entry (ActionCall act ''on_right_click'' p) W)
              | None \<Rightarrow> (Returned (), W)))"

definition on_right_click_released :: "addr \<Rightarrow> world \<Rightarrow> unit result \<times> world" where
  "on_right_click_released p W0 =
     (let W = log_entry (HandlerRun p ''on_right_click_released'') W0
      in case self_at W p of
           None \<Rightarrow> (Raised InvalidAddress, W)
         | Some (a, ps) \<Rightarrow>
             (case on_right_click_released_action a of
                Some act \<Rightarrow>
                  (Returned (), log_entry (ActionCall act ''on_right_click_released'' p) W)
              | None \<Rightarrow> (Returned (), W)))"

text \<open>\<^verbatim>\<open>ButtonMorph.change_appearance\<close>.\<close>

definition change_appearance :: "int \<Rightarrow> morph_attrs \<Rightarrow> morph_attrs" where
  "change_appearance v a =
     (let a1 = (if v = 0
                then a\<lparr>color := (fst (color a), fst (snd (color a)),
                                  fst (snd (snd (color a))), 0.5)\<rparr>
                else a)
      in if v = 1
         then a1\<lparr>color := (fst (color a1), fst (snd (color a1)),
                            fst (snd (snd (color a1))), 1.0)\<rparr>
         else a1)"

text \<open>
  \<^verbatim>\<open>on_mouse_in\<close> and \<^verbatim>\<open>on_mouse_out\<close>; a \<^verbatim>\<open>ButtonMorph\<close> overrides both and does
  not call an action.
\<close>

definition on_mouse_in :: "addr \<Rightarrow> world \<Rightarrow> unit result \<times> world" where
  "on_mouse_in p W0 =
     (let W = log_entry (HandlerRun p ''on_mouse_in'') W0
      in case self_at W p of
           None \<Rightarrow> (Raised InvalidAddress, W)
         | Some (a, ps) \<Rightarrow>
             (case cls a of
                ButtonMorphClass \<Rightarrow>
                  if hover_glow_mode a then (Returned (), set_attrs p (change_appearance 1) W)
                  else (Returned (), W)
              | MorphClass \<Rightarrow>
                  (case on_mouse_in_action a of
                     Some act \<Rightarrow> (Returned (), log_entry (ActionCall act ''on_mouse_in'' p) W)
                   | None \<Rightarrow> (Returned (), W))))"

definition on_mouse_out :: "addr \<Rightarrow> world \<Rightarrow> unit result \<times> world" where
  "on_mouse_out p W0 =
     (let W = log_entry (HandlerRun p ''on_mouse_out'') W0
      in case self_at W p of
           None \<Rightarrow> (Raised InvalidAddress, W)
         | Some (a, ps) \<Rightarrow>
             (case cls a of
                ButtonMorphClass \<Rightarrow>
                  if hover_glow_mode a then (Returned (), set_attrs p (change_appearance 0) W)
                  else (Returned (), W)
              | MorphClass \<Rightarrow>
                  (case on_mouse_out_action a of
                     Some act \<Rightarrow> (Returned (), log_entry (ActionCall act ''on_mouse_in'' p) W)
                   | None \<Rightarrow> (Returned (), W))))"

text \<open>
  The four \<^verbatim>\<open>if\<close> statements at the end of \<^verbatim>\<open>on_mouse_click\<close>, one after the
  other.
\<close>

definition on_mouse_click_handlers :: "event \<Rightarrow> addr \<Rightarrow> world \<Rightarrow> unit result \<times> world" where
  "on_mouse_click_handlers ev p W =
     then_r (then_r (then_r
       (when_r (etype ev = ''LEFTMOUSE'' \<and> evalue ev = ''PRESS'') (on_left_click p) W)
       (when_r (etype ev = ''LEFTMOUSE'' \<and> evalue ev = ''RELEASE'') (on_left_click_released p)))
       (when_r (etype ev = ''RIGHTMOUSE'' \<and> evalue ev = ''PRESS'') (on_right_click p)))
       (when_r (etype ev = ''RIGHTMOUSE'' \<and> evalue ev = ''RELEASE'') (on_right_click_released p))"

text \<open>\<^verbatim>\<open>on_mouse_click\<close>.\<close>

definition on_mouse_click :: "env \<Rightarrow> event \<Rightarrow> addr \<Rightarrow> world \<Rightarrow> unit result \<times> world" where
  "on_mouse_click E ev p W =
     (case self_at W p of
        None \<Rightarrow> (Raised InvalidAddress, W)
      | Some (a, ps) \<Rightarrow>
          (case mouse_over_morph E W a ps of
             Raised e \<Rightarrow> (Raised e, W)
           | Returned over \<Rightarrow>
               if over then
                 (if handles_mouse_down a
                  then on_mouse_click_handlers ev p (W\<lparr>consumed_event := True\<rparr>)
                  else (Returned (), W))
               else (Returned (), W)))"

text \<open>
  The loop of \<^verbatim>\<open>on_mouse_over\<close> over \<^verbatim>\<open>self.world.children\<close>. \<open>a\<close> is the dragged morph,
  \<open>wa\<close> the world (the parent of every \<^verbatim>\<open>bigMorph\<close>), \<open>x\<close> and \<open>y\<close> the candidate position.
  The conjunction is evaluated left to right, so the scaled sizes are read (and may raise)
  only for a morph of another name that is not hidden.
\<close>

fun collision_loop ::
  "env \<Rightarrow> real \<Rightarrow> real \<Rightarrow> morph_attrs \<Rightarrow> morph_attrs \<Rightarrow> morph list \<Rightarrow> bool \<Rightarrow> bool result" where
  "collision_loop E x y a wa [] cancel_drag = Returned cancel_drag"
| "collision_loop E x y a wa (bigMorph # rest) cancel_drag =
     (if u_name (attrs bigMorph) \<noteq> u_name a \<and> u_is_hidden (attrs bigMorph) = False then
        bind_r (width_scaled a) (\<lambda>sw.
        bind_r (height_scaled a) (\<lambda>sh.
        bind_r (width_scaled (attrs bigMorph)) (\<lambda>bw.
        bind_r (height_scaled (attrs bigMorph)) (\<lambda>bh.
          if collisionDetect E x y
               (fst (position_scaled (attrs bigMorph) [wa]))
               (snd (position_scaled (attrs bigMorph) [wa])) sw sh bw bh
          then collision_loop E x y a wa rest True
          else collision_loop E x y a wa rest cancel_drag))))
      else collision_loop E x y a wa rest cancel_drag)"

text \<open>The candidate position of a drag step, clamped to the viewport.\<close>

definition drag_candidate :: "env \<Rightarrow> world \<Rightarrow> morph_attrs \<Rightarrow> vec" where
  "drag_candidate E W a =
     (let offset = (fst (mouse_position W) - fst (drag_position a),
                    snd (mouse_position W) - snd (drag_position a));
          viewport_width = (case regions4_size E of Some (w, h) \<Rightarrow> w | None \<Rightarrow> 100);
          viewport_height = (case regions4_size E of Some (w, h) \<Rightarrow> h | None \<Rightarrow> 100);
          positionX = max (min (viewport_width - u_width a)
                               (fst (real_position a) + fst offset)) 0;
          positionY = max (min (viewport_height - u_height a)
                               (snd (real_position a) + snd offset)) 0
      in (positionX, positionY))"

text \<open>
  \<^verbatim>\<open>on_mouse_over\<close> has two parts. The first is the block under
  \<^verbatim>\<open>if self.drag_drop:\<close>: unless the loop has set \<^verbatim>\<open>cancel_drag\<close>, the position
  becomes the candidate and the drag anchor the pointer position of the world.
\<close>

definition on_mouse_over_drag :: "env \<Rightarrow> addr \<Rightarrow> world \<Rightarrow> unit result \<times> world" where
  "on_mouse_over_drag E p W =
     (case self_at W p of
        None \<Rightarrow> (Raised InvalidAddress, W)
      | Some (a, ps) \<Rightarrow>
          if drag_drop a then
            (case collision_loop E (fst (drag_candidate E W a)) (snd (drag_candidate E W a))
                    a (attrs (morph_part W)) (children (morph_part W)) False of
               Raised e \<Rightarrow> (Raised e, W)
             | Returned cancel_drag \<Rightarrow>
                 if cancel_drag = False
                 then (Returned (),
                       set_attrs p (\<lambda>s. (position_set (drag_candidate E W a) s ps)
                                          \<lparr>drag_position := mouse_position W\<rparr>) W)
                 else (Returned (), W))
          else (Returned (), W))"

text \<open>
  The second part calls \<^verbatim>\<open>on_mouse_in\<close> when the pointer is over the morph and
  \<^verbatim>\<open>on_mouse_out\<close> otherwise.
\<close>

definition on_mouse_over_hover :: "env \<Rightarrow> addr \<Rightarrow> world \<Rightarrow> unit result \<times> world" where
  "on_mouse_over_hover E p W =
     (case self_at W p of
        None \<Rightarrow> (Raised InvalidAddress, W)
      | Some (a, ps) \<Rightarrow>
          (case mouse_over_morph E W a ps of
             Raised e \<Rightarrow> (Raised e, W)
           | Returned over \<Rightarrow> if over then on_mouse_in p W else on_mouse_out p W))"

definition on_mouse_over :: "env \<Rightarrow> addr \<Rightarrow> world \<Rightarrow> unit result \<times> world" where
  "on_mouse_over E p W = then_r (on_mouse_over_drag E p W) (on_mouse_over_hover E p)"

text \<open>
  The second half of \<^verbatim>\<open>Morph.on_event\<close>, what the morph does itself once its children
  have been served: it acts only if it handles events, is not hidden and the world's
  \<^verbatim>\<open>consumed_event\<close> is not set.
\<close>

definition on_event_self :: "env \<Rightarrow> event \<Rightarrow> addr \<Rightarrow> world \<Rightarrow> unit result \<times> world" where
  "on_event_self E ev p W =
     (case self_at W p of
        None \<Rightarrow> (Raised InvalidAddress, W)
      | Some (a, ps) \<Rightarrow>
          if handles_events a \<and> \<not> u_is_hidden a \<and> \<not> consumed_event W then
            (if etype ev = ''LEFTMOUSE'' \<or> etype ev = ''RIGHTMOUSE''
             then on_mouse_click E ev p W
             else if etype ev = ''MOUSEMOVE'' then on_mouse_over E p W
             else (Returned (), W))
          else (Returned (), W))"

text \<open>
  \<^verbatim>\<open>Morph.on_event\<close>: first every child in turn, then the morph itself. The second argument
  is the subtree of the morph and gives the recursion its shape (no handler adds or removes
  a child); the attributes are read from the world at the address.
\<close>

fun on_event :: "env \<Rightarrow> morph \<Rightarrow> addr \<Rightarrow> event \<Rightarrow> world \<Rightarrow> unit result \<times> world"
  and on_event_children ::
    "env \<Rightarrow> morph list \<Rightarrow> nat \<Rightarrow> addr \<Rightarrow> event \<Rightarrow> world \<Rightarrow> unit result \<times> world" where
  "on_event E (Morph a0 cs) p ev W =
     then_r (on_event_children E cs 0 p ev W) (on_event_self E ev p)"
| "on_event_children E [] i p ev W = (Returned (), W)"
| "on_event_children E (c # cs) i p ev W =
     then_r (on_event E c (i # p) ev W) (on_event_children E cs (Suc i) p ev)"

text \<open>\<^verbatim>\<open>World.on_event\<close>.\<close>

definition World_on_event :: "env \<Rightarrow> event \<Rightarrow> frame_context \<Rightarrow> world \<Rightarrow> unit result \<times> world" where
  "World_on_event E ev ctx W =
     (case region ctx of
        None \<Rightarrow> (Returned (), W)
      | Some r \<Rightarrow>
          (let W1 = W\<lparr>window_position := (region_x r, region_y r)\<rparr>;
               W2 = W1\<lparr>window_width := region_width r\<rparr>;
               W3 = W2\<lparr>window_height := region_height r\<rparr>;
               W4 = W3\<lparr>mouse_position_absolute :=
                         (mouse_region_x ev + fst (window_position W3),
                          mouse_region_y ev + snd (window_position W3))\<rparr>;
               W5 = W4\<lparr>event := Some ev\<rparr>;
               W6 = W5\<lparr>consumed_event := False\<rparr>
           in on_event_children E (children (morph_part W6)) 0 [] ev W6))"

section \<open>Notions used in the statements\<close>

text \<open>The attributes of the morph at an address.\<close>

definition attrs_at :: "world \<Rightarrow> addr \<Rightarrow> morph_attrs option" where
  "attrs_at W p = map_option attrs (node_at (morph_part W) p)"

text \<open>An assignment to attributes of a morph that is not attached yet.\<close>

definition with_attrs :: "(morph_attrs \<Rightarrow> morph_attrs) \<Rightarrow> morph \<Rightarrow> morph" where
  "with_attrs f m = Morph (f (attrs m)) (children m)"

text \<open>
  The hit test of a rectangle as the specification words it: the pointer lies strictly inside
  the box from the absolute position to the absolute position plus the scaled size.
\<close>

definition is_pointer_over_spec :: "world \<Rightarrow> morph_attrs \<Rightarrow> morph_attrs list \<Rightarrow> bool" where
  "is_pointer_over_spec W a ps =
     (fst (get_absolute_position W a ps) < fst (mouse_position_absolute W) \<and>
      fst (mouse_position_absolute W) < fst (get_absolute_position W a ps) + u_width a \<and>
      snd (get_absolute_position W a ps) < snd (mouse_position_absolute W) \<and>
      snd (mouse_position_absolute W) < snd (get_absolute_position W a ps) + u_height a)"

text \<open>
  The hidden flags below \<open>w\<close> are consistent for the value \<open>v\<close> when every morph below \<open>w\<close>
  that carries \<open>v\<close> has only morphs below it that carry \<open>v\<close>.
\<close>

definition hidden_consistent :: "bool \<Rightarrow> morph \<Rightarrow> bool" where
  "hidden_consistent v w =
     (\<forall>d \<in> set (descendants w). u_is_hidden (attrs d) = v \<longrightarrow>
        (\<forall>e \<in> set (descendants d). u_is_hidden (attrs e) = v))"

text \<open>
  \<open>blocks_drag E W a bigMorph\<close>: the child \<open>bigMorph\<close> of the world makes the loop of
  \<^verbatim>\<open>on_mouse_over\<close> set \<^verbatim>\<open>cancel_drag\<close> for the dragged morph \<open>a\<close>.
\<close>

definition blocks_drag :: "env \<Rightarrow> world \<Rightarrow> morph_attrs \<Rightarrow> morph \<Rightarrow> bool" where
  "blocks_drag E W a bigMorph =
     (u_name (attrs bigMorph) \<noteq> u_name a \<and> u_is_hidden (attrs bigMorph) = False \<and>
      collisionDetect E (fst (drag_candidate E W a)) (snd (drag_candidate E W a))
        (fst (position_scaled (attrs bigMorph) [attrs (morph_part W)]))
        (snd (position_scaled (attrs bigMorph) [attrs (morph_part W)]))
        (u_width a) (u_height a) (u_width (attrs bigMorph)) (u_height (attrs bigMorph)))"

definition drag_fields :: "morph_attrs \<Rightarrow> vec \<times> vec \<times> vec \<times> bool" where
  "drag_fields a = (real_position a, u_position a, drag_position a, drag_drop a)"

text \<open>The handlers of a pointer-button event, and the trace entries that record their runs.\<close>

definition click_handlers :: "string list" where
  "click_handlers =
     [''on_left_click'', ''on_left_click_released'', ''on_right_click'',
      ''on_right_click_released'']"

fun is_click_run :: "entry \<Rightarrow> bool" where
  "is_click_run (HandlerRun p h) = (h \<in> set click_handlers)"
| "is_click_run (ActionCall a m p) = False"

fun addr_of :: "entry \<Rightarrow> addr" where
  "addr_of (HandlerRun p h) = p"
| "addr_of (ActionCall a m p) = p"

text \<open>What a step has added to the trace.\<close>

definition new_entries :: "world \<Rightarrow> world \<Rightarrow> entry list" where
  "new_entries W W' = drop (length (trace W)) (trace W')"

text \<open>
  \<open>grows W W' n\<close>: from \<open>W\<close> to \<open>W'\<close> the trace was only extended, by at most \<open>n\<close> runs of click
  handlers. \<open>served W0 W\<close>: since \<open>W0\<close> a click handler has run at most once, and only if
  \<^verbatim>\<open>consumed_event\<close> is set.
\<close>

definition grows :: "world \<Rightarrow> world \<Rightarrow> nat \<Rightarrow> bool" where
  "grows W W' n = (\<exists>new. trace W' = trace W @ new \<and> length (filter is_click_run new) \<le> n)"

definition served :: "world \<Rightarrow> world \<Rightarrow> bool" where
  "served W0 W = grows W0 W (if consumed_event W then 1 else 0)"

text \<open>
  \<open>logs_under W W' p k\<close>: from \<open>W\<close> to \<open>W'\<close> the trace was only extended, by entries of morphs
  at least \<open>k\<close> levels below the address \<open>p\<close>.
\<close>

definition logs_under :: "world \<Rightarrow> world \<Rightarrow> addr \<Rightarrow> nat \<Rightarrow> bool" where
  "logs_under W W' p k =
     (\<exists>new. trace W' = trace W @ new \<and>
        (\<forall>e \<in> set new. \<exists>s. addr_of e = s @ p \<and> k \<le> length s))"

text \<open>
  The morph at \<open>q\<close> is one that takes a pointer-button event in \<open>W\<close>: it handles events, is not
  hidden, handles mouse-down, and the pointer is over it.
\<close>

definition takes_click :: "env \<Rightarrow> world \<Rightarrow> addr \<Rightarrow> bool" where
  "takes_click E W q =
     (case self_at W q of
        None \<Rightarrow> False
      | Some (a, ps) \<Rightarrow>
          handles_events a \<and> \<not> u_is_hidden a \<and> handles_mouse_down a \<and>
          mouse_over_morph E W a ps = Returned True)"

text \<open>A step has returned and left \<^verbatim>\<open>consumed_event\<close> unset.\<close>

definition still_open :: "unit result \<times> world \<Rightarrow> bool" where
  "still_open r = (fst r = Returned () \<and> \<not> consumed_event (snd r))"

section \<open>Example worlds\<close>

text \<open>
  Modelled from the spec: \<^verbatim>\<open>morpheas_tools.pointsDistance\<close> and
  \<^verbatim>\<open>morpheas_tools.collisionDetect\<close> are not among the sources. The examples take the
  Euclidean distance and the overlap test of two axis-aligned rectangles given as
  \<open>x1 y1 x2 y2 w1 h1 w2 h2\<close>; the host loads every image and has no region 4.
\<close>

definition example_env :: env where
  "example_env =
     \<lparr>images_load = (\<lambda>path. True),
      regions4_size = None,
      pointsDistance = (\<lambda>x1 y1 x2 y2. sqrt ((x1 - x2)\<^sup>2 + (y1 - y2)\<^sup>2)),
      collisionDetect = (\<lambda>x1 y1 x2 y2 w1 h1 w2 h2.
         x1 < x2 + w2 \<and> x2 < x1 + w1 \<and> y1 < y2 + h2 \<and> y2 < y1 + h1)\<rparr>"

definition press_event :: "real \<Rightarrow> real \<Rightarrow> event" where
  "press_event x y =
     \<lparr>etype = ''LEFTMOUSE'', evalue = ''PRESS'', mouse_region_x = x, mouse_region_y = y\<rparr>"

definition move_event :: "real \<Rightarrow> real \<Rightarrow> event" where
  "move_event x y =
     \<lparr>etype = ''MOUSEMOVE'', evalue = ''NOTHING'', mouse_region_x = x, mouse_region_y = y\<rparr>"

definition window_context :: frame_context where
  "window_context =
     \<lparr>region = Some \<lparr>region_x = 0, region_y = 0, region_width = 300, region_height = 300\<rparr>\<rparr>"

definition named :: "string \<Rightarrow> kargs" where
  "named n = default_kargs\<lparr>k_name := n\<rparr>"

text \<open>A root with the child \<open>panel\<close>, which has the child \<open>button\<close>.\<close>

definition lookup_example :: morph where
  "lookup_example =
     add_morph (Morph_new (named ''root''))
       (add_morph (Morph_new (named ''panel'')) (Morph_new (named ''button'')))"

text \<open>
  A world with one morph of width and height 100 and scale 1/2 at the origin, after an event
  with the pointer at (75, 25).
\<close>

definition hit_example :: world where
  "hit_example =
     snd (World_on_event example_env (move_event 75 25) window_context
            (World_add_morph (World_new (Morph_new default_kargs))
               (Morph_new (default_kargs\<lparr>k_scale := 1 / 2\<rparr>))))"

text \<open>
  The panel was hidden before the button was added to it, and then added to the root: the
  panel is hidden, the button and the root are not.
\<close>

definition hidden_example :: morph where
  "hidden_example =
     add_morph (Morph_new (named ''root''))
       (add_morph (is_hidden_set True (Morph_new (named ''panel'')))
          (Morph_new (named ''button'')))"

text \<open>
  A drag scenario: a world with the morph \<open>nA\<close> of size 20 by 20 at (10, 10), which supports
  dragging, and the morph \<open>nB\<close> of size 20 by 20 at (35, 0). The pointer has pressed the
  first morph at (15, 15), which started the drag, and is now at (mx, my). The host reports a
  region 4 of width 40 and height 100.
\<close>

definition drag_env :: env where
  "drag_env = example_env\<lparr>regions4_size := Some (40, 100)\<rparr>"

definition drag_example :: "string \<Rightarrow> string \<Rightarrow> real \<Rightarrow> real \<Rightarrow> world" where
  "drag_example nA nB mx my =
     (snd (on_left_click [0]
        ((World_add_morph
           (World_add_morph (World_new (Morph_new default_kargs))
              (Morph_new (default_kargs\<lparr>k_name := nA, k_width := 20, k_height := 20,
                                         k_position := (10, 10), k_drag_drop := True\<rparr>)))
           (Morph_new (default_kargs\<lparr>k_name := nB, k_width := 20, k_height := 20,
                                      k_position := (35, 0)\<rparr>)))
         \<lparr>mouse_position := (15, 15)\<rparr>)))
     \<lparr>mouse_position := (mx, my)\<rparr>"

text \<open>
  A world with one plain morph that handles events and has the action 1 bound for mouse-out.
\<close>

definition mouse_out_example :: world where
  "mouse_out_example =
     World_add_morph (World_new (Morph_new default_kargs))
       (with_attrs (\<lambda>a. a\<lparr>handles_events := True\<rparr>)
          (Morph_new (default_kargs\<lparr>k_on_mouse_out_action := Some (Action 1)\<rparr>)))"

text \<open>
  A world with a button \<open>panel\<close> of size 100 by 100 that contains a button of size 50 by 50
  at (10, 10).
\<close>

definition click_button :: morph where
  "click_button =
     ButtonMorph_new True
       (Morph_new (default_kargs\<lparr>k_name := ''button'', k_width := 50, k_height := 50,
                                  k_position := (10, 10)\<rparr>))"

definition click_panel :: morph where
  "click_panel = add_morph (ButtonMorph_new True (Morph_new (named ''panel''))) click_button"

definition click_example :: world where
  "click_example = World_add_morph (World_new (Morph_new default_kargs)) click_panel"

text \<open>
  The example world as \<^verbatim>\<open>World.on_event\<close> has prepared it for a press at (20, 20), before
  it serves its children.
\<close>

definition click_ready :: world where
  "click_ready =
     click_example\<lparr>window_position := (0, 0), window_width := 300, window_height := 300,
                   mouse_position_absolute := (20, 20), event := Some (press_event 20 20),
                   consumed_event := False\<rparr>"

section \<open>Sequencing\<close>

lemma snd_then_r:
  "snd (then_r r f) = (case fst r of Returned u \<Rightarrow> snd (f (snd r)) | Raised e \<Rightarrow> snd r)"
  by (cases r) (simp add: then_r_def split: result.splits)

lemma then_r_keeps:
  assumes "P (snd r)" and "\<And>W. P W \<Longrightarrow> P (snd (f W))"
  shows "P (snd (then_r r f))"
  using assms by (simp add: snd_then_r split: result.splits)

lemma when_r_False [simp]: "when_r False f = (\<lambda>W. (Returned (), W))"
  by (simp add: when_r_def fun_eq_iff)

lemma when_r_True [simp]: "when_r True f = f"
  by (simp add: when_r_def fun_eq_iff)

lemma then_r_skip [simp]: "then_r r (\<lambda>W. (Returned (), W)) = r"
  by (cases r) (simp add: then_r_def split: result.splits)

lemma then_r_Returned [simp]: "then_r (Returned u, W) f = f W"
  by (simp add: then_r_def)

lemma then_r_Raised [simp]: "then_r (Raised e, W) f = (Raised e, W)"
  by (simp add: then_r_def)

section \<open>Addresses\<close>

lemma node_at_update_at:
  "node_at (update_at p g t) p = map_option g (node_at t p)"
proof (induction p arbitrary: g)
  case Nil
  show ?case by simp
next
  case (Cons i pp)
  show ?case
    by (cases "node_at t pp") (simp_all add: Cons.IH)
qed

lemma attrs_at_set_attrs:
  "attrs_at (set_attrs p f W) p = map_option f (attrs_at W p)"
  by (simp add: attrs_at_def set_attrs_def node_at_update_at option.map_comp comp_def)

lemma attrs_at_log_entry [simp]: "attrs_at (log_entry e W) p = attrs_at W p"
  by (simp add: attrs_at_def log_entry_def)

lemma self_at_attrs_at: "self_at W p = Some (a, ps) \<Longrightarrow> attrs_at W p = Some a"
  by (auto simp: self_at_def attrs_at_def split: option.splits)

lemma self_at_None: "self_at W p = None \<longleftrightarrow> attrs_at W p = None"
  by (auto simp: self_at_def attrs_at_def split: option.splits)

lemma trace_set_attrs [simp]: "trace (set_attrs p f W) = trace W"
  by (simp add: set_attrs_def)

lemma consumed_set_attrs [simp]: "consumed_event (set_attrs p f W) = consumed_event W"
  by (simp add: set_attrs_def)

section \<open>The hidden flag\<close>

lemma descendants_trans:
  "d \<in> set (descendants c) \<Longrightarrow> set (descendants d) \<subseteq> set (descendants c)"
proof (induction c arbitrary: d)
  case (Morph a cs)
  from Morph.prems obtain x where x: "x \<in> set cs" "d = x \<or> d \<in> set (descendants x)"
    by auto
  show ?case
  proof (cases "d = x")
    case True
    with x show ?thesis by auto
  next
    case False
    with x have "d \<in> set (descendants x)" by simp
    with Morph.IH x(1) have "set (descendants d) \<subseteq> set (descendants x)" by blast
    with x(1) show ?thesis by auto
  qed
qed

lemma is_hidden_set_flag [simp]: "u_is_hidden (attrs (is_hidden_set v w)) = v"
  by (cases w) simp

lemma all_hidden_consistent:
  "\<forall>e \<in> set (descendants c). u_is_hidden (attrs e) = v \<Longrightarrow> hidden_consistent v c"
  unfolding hidden_consistent_def using descendants_trans by blast

lemma hidden_consistent_Morph:
  "hidden_consistent v (Morph a cs) \<longleftrightarrow>
     (\<forall>c \<in> set cs.
        (u_is_hidden (attrs c) = v \<longrightarrow> (\<forall>e \<in> set (descendants c). u_is_hidden (attrs e) = v)) \<and>
        hidden_consistent v c)"
  unfolding hidden_consistent_def by auto

text \<open>
  Claim C4, amended. After \<^verbatim>\<open>is_hidden = v\<close> has been assigned on \<open>w\<close>, every morph below \<open>w\<close>
  carries \<open>v\<close> if and only if the flags below \<open>w\<close> were consistent for \<open>v\<close> before: every morph
  below \<open>w\<close> that carried \<open>v\<close> already had only morphs below it that carried \<open>v\<close>. (The setter
  passes over a child whose flag is \<open>v\<close> already, together with its subtree.)
\<close>
theorem is_hidden_cascade_iff:
  "(\<forall>c \<in> set (descendants (is_hidden_set v w)). u_is_hidden (attrs c) = v) \<longleftrightarrow>
   hidden_consistent v w"
proof (induction w)
  case (Morph a cs)
  have "(\<forall>c \<in> set (descendants (is_hidden_set v (Morph a cs))). u_is_hidden (attrs c) = v) \<longleftrightarrow>
        (\<forall>c \<in> set cs. if u_is_hidden (attrs c) \<noteq> v
                        then (\<forall>e \<in> set (descendants (is_hidden_set v c)). u_is_hidden (attrs e) = v)
                        else (\<forall>e \<in> set (descendants c). u_is_hidden (attrs e) = v))"
    by (auto split: if_splits)
  also have "\<dots> \<longleftrightarrow> (\<forall>c \<in> set cs. if u_is_hidden (attrs c) \<noteq> v then hidden_consistent v c
                        else (\<forall>e \<in> set (descendants c). u_is_hidden (attrs e) = v))"
    using Morph.IH by (intro ball_cong refl) auto
  also have "\<dots> \<longleftrightarrow> hidden_consistent v (Morph a cs)"
    unfolding hidden_consistent_Morph using all_hidden_consistent by (intro ball_cong refl) auto
  finally show ?case .
qed

text \<open>
  Witness for C4: in the tree root > panel > button, where no morph is hidden, the flags are
  consistent for \<open>True\<close>, and hiding the root hides the panel and the button.
\<close>
theorem is_hidden_cascade_witness:
  "hidden_consistent True lookup_example \<and>
   map (\<lambda>c. u_is_hidden (attrs c)) (descendants (is_hidden_set True lookup_example)) = [True, True]"
  using is_hidden_cascade_iff [of True lookup_example]
  by (simp add: hidden_consistent_def lookup_example_def add_morph_def Morph_new_def named_def
      default_kargs_def Let_def)

text \<open>
  Counterexample to C4 as stated: the panel is hidden, the button below it and the root are
  not. Assigning \<^verbatim>\<open>is_hidden = True\<close> on the root leaves the button not hidden.
\<close>
theorem is_hidden_cascade_counterexample:
  "u_is_hidden (attrs hidden_example) = False \<and>
   map (\<lambda>c. (u_name (attrs c), u_is_hidden (attrs c))) (descendants hidden_example)
     = [(''panel'', True), (''button'', False)] \<and>
   map (\<lambda>c. (u_name (attrs c), u_is_hidden (attrs c)))
       (descendants (is_hidden_set True hidden_example))
     = [(''panel'', True), (''button'', False)] \<and>
   \<not> (\<forall>c \<in> set (descendants (is_hidden_set True hidden_example)).
         u_is_hidden (attrs c) = True)"
  by (simp add: hidden_example_def add_morph_def Morph_new_def named_def
      default_kargs_def Let_def)

section \<open>Lookup by name\<close>

text \<open>
  Claim C1. The lookup by name is claimed to search the whole subtree depth-first and to find a
  matching morph nested more than one level deep. \<^verbatim>\<open>get_child_morph_named\<close> drops the
  result of its recursive call: in the tree root > panel > button it finds \<open>panel\<close>, a direct
  child, and returns \<open>None\<close> for \<open>button\<close>, which the exhaustive depth-first search of the
  specification finds.
\<close>
theorem get_child_morph_named_misses_nested:
  "get_child_morph_named lookup_example ''panel'' \<noteq> None \<and>
   get_child_morph_named lookup_example ''button'' = None \<and>
   find_by_name_spec lookup_example ''button'' = Some (Morph_new (named ''button''))"
  by (simp add: lookup_example_def add_morph_def Morph_new_def named_def default_kargs_def Let_def)

section \<open>Hit test\<close>

text \<open>
  Claim C3. The hit test of a rectangle is claimed to hold exactly when the pointer is strictly
  inside the box spanned by the absolute position and the scaled width and height. The
  rectangle branch of \<^verbatim>\<open>mouse_over_morph\<close> adds \<^verbatim>\<open>self.width\<close> and \<^verbatim>\<open>self.height\<close>, the
  unscaled size: for a morph of size 100 by 100 and scale 1/2 at the origin, whose scaled size
  is 50 by 50, and the pointer at (75, 25), it answers true although the pointer is outside the
  scaled box.
\<close>
theorem mouse_over_morph_uses_unscaled_size:
  "(case self_at hit_example [0] of
      None \<Rightarrow> False
    | Some (a, ps) \<Rightarrow>
        circle a = False \<and>
        width_scaled a = Returned 50 \<and> height_scaled a = Returned 50 \<and>
        get_absolute_position hit_example a ps = (0, 0) \<and>
        mouse_position_absolute hit_example = (75, 25) \<and>
        mouse_over_morph example_env hit_example a ps = Returned True \<and>
        is_pointer_over_spec hit_example a ps = False)"
  by (simp add: hit_example_def World_on_event_def window_context_def move_event_def
      World_add_morph_def World_new_def Let_def
      self_at_def Morph_new_def default_kargs_def mouse_over_morph_def on_event_self_def
      is_pointer_over_spec_def width_def height_def width_scaled_def height_scaled_def bind_r_def)

section \<open>Width setter\<close>

text \<open>
  Claim C6. The setter of \<^verbatim>\<open>width\<close> raises \<^verbatim>\<open>ValueError\<close> for a negative value and leaves
  every attribute of the morph as it was; for a value that is not negative it returns, the
  stored width is the value, and the getter returns it.
\<close>
theorem width_set_rejects_negative:
  "(v < 0 \<longrightarrow> width_set v a ps = (Raised ValueError, a)) \<and>
   (0 \<le> v \<longrightarrow> fst (width_set v a ps) = Returned () \<and>
      real_width (snd (width_set v a ps)) = v \<and>
      width (snd (width_set v a ps)) = Returned v)"
  by (simp add: width_set_def width_def)

text \<open>Witness for C6: a new morph of width 100, set to -5 and to 7.\<close>
theorem width_set_rejects_negative_witness:
  "width_set (- 5) (attrs (Morph_new default_kargs)) [] =
     (Raised ValueError, attrs (Morph_new default_kargs)) \<and>
   real_width (attrs (Morph_new default_kargs)) = 100 \<and>
   u_width (attrs (Morph_new default_kargs)) = 100 \<and>
   fst (width_set 7 (attrs (Morph_new default_kargs)) []) = Returned () \<and>
   real_width (snd (width_set 7 (attrs (Morph_new default_kargs)) [])) = 7 \<and>
   width (snd (width_set 7 (attrs (Morph_new default_kargs)) [])) = Returned 7"
  using width_set_rejects_negative [of "- 5" "attrs (Morph_new default_kargs)" "[]"]
    width_set_rejects_negative [of 7 "attrs (Morph_new default_kargs)" "[]"]
  by (simp add: Morph_new_def default_kargs_def)

section \<open>Bounds\<close>

text \<open>
  Claim C8. After \<^verbatim>\<open>add_morph\<close>, of a morph or of a world, each lower bound of the parent is
  the minimum and each upper bound the maximum of the parent's bound before and the child's
  bound: the box of the parent contains both boxes and never shrinks. The child is appended
  to the children.
\<close>
theorem add_morph_bounds_grow:
  "b0 (bounds (attrs (add_morph p c))) = min (b0 (bounds (attrs p))) (b0 (bounds (attrs c))) \<and>
   b1 (bounds (attrs (add_morph p c))) = min (b1 (bounds (attrs p))) (b1 (bounds (attrs c))) \<and>
   b2 (bounds (attrs (add_morph p c))) = max (b2 (bounds (attrs p))) (b2 (bounds (attrs c))) \<and>
   b3 (bounds (attrs (add_morph p c))) = max (b3 (bounds (attrs p))) (b3 (bounds (attrs c))) \<and>
   b0 (bounds (attrs (morph_part (World_add_morph W c)))) =
     min (b0 (bounds (attrs (morph_part W)))) (b0 (bounds (attrs c))) \<and>
   b1 (bounds (attrs (morph_part (World_add_morph W c)))) =
     min (b1 (bounds (attrs (morph_part W)))) (b1 (bounds (attrs c))) \<and>
   b2 (bounds (attrs (morph_part (World_add_morph W c)))) =
     max (b2 (bounds (attrs (morph_part W)))) (b2 (bounds (attrs c))) \<and>
   b3 (bounds (attrs (morph_part (World_add_morph W c)))) =
     max (b3 (bounds (attrs (morph_part W)))) (b3 (bounds (attrs c))) \<and>
   children (add_morph p c) = children p @ [c] \<and>
   children (morph_part (World_add_morph W c)) = children (morph_part W) @ [c]"
  by (simp add: add_morph_def World_add_morph_def Let_def min_def max_def)

section \<open>World construction\<close>

text \<open>
  Claim C9. \<^verbatim>\<open>World.__init__\<close> does not read its parameter \<^verbatim>\<open>auto_hide\<close>: the constructor
  does the same for \<open>False\<close> and \<open>True\<close>, and every world it returns has
  \<^verbatim>\<open>auto_hide = True\<close>.
\<close>
theorem World_init_ignores_auto_hide:
  "World_init E singular False k = World_init E singular True k \<and>
   (\<forall>W. World_init E singular h k = Returned W \<longrightarrow> auto_hide W = True)"
  by (auto simp: World_init_def World_new_def bind_r_def split: result.splits)

text \<open>Witness for C9: a world built with the default arguments and \<^verbatim>\<open>auto_hide=False\<close>.\<close>
theorem World_init_ignores_auto_hide_witness:
  "World_init example_env True False default_kargs = Returned (World_new (Morph_new default_kargs)) \<and>
   auto_hide (World_new (Morph_new default_kargs)) = True"
  using World_init_ignores_auto_hide [of example_env True default_kargs False]
  by (simp add: World_init_def Morph_init_def bind_r_def default_kargs_def)

section \<open>Events without a region\<close>

text \<open>
  Claim C10. When \<^verbatim>\<open>context.region\<close> is \<^verbatim>\<open>None\<close>, \<^verbatim>\<open>World.on_event\<close> returns at once:
  the world is unchanged, so no handler has run and \<^verbatim>\<open>consumed_event\<close>, the stored event,
  both pointer positions and the window geometry keep their values.
\<close>
theorem World_on_event_no_region:
  "region ctx = None \<Longrightarrow>
     World_on_event E ev ctx W = (Returned (), W) \<and>
     trace (snd (World_on_event E ev ctx W)) = trace W \<and>
     consumed_event (snd (World_on_event E ev ctx W)) = consumed_event W \<and>
     event (snd (World_on_event E ev ctx W)) = event W \<and>
     mouse_position (snd (World_on_event E ev ctx W)) = mouse_position W \<and>
     mouse_position_absolute (snd (World_on_event E ev ctx W)) = mouse_position_absolute W \<and>
     window_position (snd (World_on_event E ev ctx W)) = window_position W \<and>
     window_width (snd (World_on_event E ev ctx W)) = window_width W \<and>
     window_height (snd (World_on_event E ev ctx W)) = window_height W"
  by (simp add: World_on_event_def)

text \<open>Witness for C10: a button press sent to the example world with no region.\<close>
theorem World_on_event_no_region_witness:
  "region \<lparr>region = None\<rparr> = None \<and>
   World_on_event example_env (press_event 20 20) \<lparr>region = None\<rparr> click_example
     = (Returned (), click_example) \<and>
   trace (snd (World_on_event example_env (press_event 20 20) \<lparr>region = None\<rparr> click_example))
     = [] \<and>
   event (snd (World_on_event example_env (press_event 20 20) \<lparr>region = None\<rparr> click_example))
     = None"
  using World_on_event_no_region [of "\<lparr>region = None\<rparr>" example_env "press_event 20 20" click_example]
  by (simp add: click_example_def World_add_morph_def World_new_def Let_def)

section \<open>Dragging\<close>

lemma drag_fields_change_appearance [simp]:
  "drag_fields (change_appearance v a) = drag_fields a"
  by (simp add: drag_fields_def change_appearance_def Let_def)

lemma on_mouse_in_keeps:
  "map_option drag_fields (attrs_at (snd (on_mouse_in p W)) p) = map_option drag_fields (attrs_at W p)"
  by (auto simp: on_mouse_in_def Let_def attrs_at_set_attrs option.map_comp comp_def self_at_None
      split: option.splits morph_class.splits)

lemma on_mouse_out_keeps:
  "map_option drag_fields (attrs_at (snd (on_mouse_out p W)) p) = map_option drag_fields (attrs_at W p)"
  by (auto simp: on_mouse_out_def Let_def attrs_at_set_attrs option.map_comp comp_def self_at_None
      split: option.splits morph_class.splits)

lemma on_mouse_over_hover_keeps:
  "map_option drag_fields (attrs_at (snd (on_mouse_over_hover E p W)) p)
     = map_option drag_fields (attrs_at W p)"
  by (simp add: on_mouse_over_hover_def on_mouse_in_keeps on_mouse_out_keeps
      split: option.splits result.splits prod.splits)

lemma collision_loop_returns:
  assumes "0 \<le> u_width a" "0 \<le> u_height a"
    and "\<forall>big \<in> set cs. 0 \<le> u_width (attrs big) \<and> 0 \<le> u_height (attrs big)"
  shows "collision_loop E x y a wa cs c0 =
     Returned (c0 \<or> (\<exists>big \<in> set cs.
        u_name (attrs big) \<noteq> u_name a \<and> u_is_hidden (attrs big) = False \<and>
        collisionDetect E x y (fst (position_scaled (attrs big) [wa]))
          (snd (position_scaled (attrs big) [wa]))
          (u_width a) (u_height a) (u_width (attrs big)) (u_height (attrs big))))"
  using assms
proof (induction cs arbitrary: c0)
  case Nil
  show ?case by simp
next
  case (Cons big rest)
  then show ?case
    by (auto simp: bind_r_def width_scaled_def height_scaled_def)
qed

lemma on_mouse_over_drag_result:
  assumes self: "self_at W p = Some (a, ps)"
    and drag: "drag_drop a"
    and own: "0 \<le> u_width a" "0 \<le> u_height a"
    and others: "\<forall>big \<in> set (children (morph_part W)).
                   0 \<le> u_width (attrs big) \<and> 0 \<le> u_height (attrs big)"
  shows "\<exists>a'. attrs_at (snd (on_mouse_over E p W)) p = Some a' \<and> drag_drop a' \<and>
     (if \<exists>big \<in> set (children (morph_part W)). blocks_drag E W a big
      then real_position a' = real_position a \<and> u_position a' = u_position a \<and>
           drag_position a' = drag_position a
      else real_position a' = drag_candidate E W a \<and>
           u_position a' = (fst (drag_candidate E W a) * get_absolute_scale a ps,
                            snd (drag_candidate E W a) * get_absolute_scale a ps) \<and>
           drag_position a' = mouse_position W)"
proof -
  let ?blocked = "\<exists>big \<in> set (children (morph_part W)). blocks_drag E W a big"
  let ?W1 = "snd (on_mouse_over_drag E p W)"
  have loop: "collision_loop E (fst (drag_candidate E W a)) (snd (drag_candidate E W a))
                a (attrs (morph_part W)) (children (morph_part W)) False = Returned ?blocked"
    using collision_loop_returns [OF own others] by (simp add: blocks_drag_def)
  have at: "attrs_at W p = Some a" using self by (rule self_at_attrs_at)
  have drag_part: "on_mouse_over_drag E p W =
     (Returned (), if ?blocked then W
        else set_attrs p (\<lambda>s. (position_set (drag_candidate E W a) s ps)
                                \<lparr>drag_position := mouse_position W\<rparr>) W)"
    using self drag loop by (simp add: on_mouse_over_drag_def)
  have "map_option drag_fields (attrs_at (snd (on_mouse_over E p W)) p)
          = map_option drag_fields (attrs_at ?W1 p)"
    by (simp add: on_mouse_over_def drag_part on_mouse_over_hover_keeps)
  with at drag show ?thesis
    by (cases ?blocked)
      (auto simp: drag_part drag_fields_def attrs_at_set_attrs position_set_def)
qed

lemma drag_example_self:
  "self_at (drag_example nA nB mx my) [0] =
     Some ((attrs (Morph_new (default_kargs\<lparr>k_name := nA, k_width := 20, k_height := 20,
                                              k_position := (10, 10), k_drag_drop := True\<rparr>)))
             \<lparr>drag_drop := True, drag_position := (15, 15)\<rparr>,
           [attrs (morph_part (drag_example nA nB mx my))])"
  by (simp add: drag_example_def on_left_click_def Let_def log_entry_def self_at_def
      World_add_morph_def World_new_def Morph_new_def default_kargs_def set_attrs_def)

lemma drag_example_children:
  "children (morph_part (drag_example nA nB mx my)) =
     [Morph ((attrs (Morph_new (default_kargs\<lparr>k_name := nA, k_width := 20, k_height := 20,
                                              k_position := (10, 10), k_drag_drop := True\<rparr>)))
             \<lparr>drag_drop := True, drag_position := (15, 15)\<rparr>) [],
      Morph_new (default_kargs\<lparr>k_name := nB, k_width := 20, k_height := 20,
                                 k_position := (35, 0)\<rparr>)]"
  by (simp add: drag_example_def on_left_click_def Let_def log_entry_def self_at_def
      World_add_morph_def World_new_def Morph_new_def default_kargs_def set_attrs_def)

lemma drag_example_fields:
  "mouse_position (drag_example nA nB mx my) = (mx, my)"
  "scale (attrs (morph_part (drag_example nA nB mx my))) = 1"
  by (simp_all add: drag_example_def on_left_click_def Let_def log_entry_def self_at_def
      World_add_morph_def World_new_def Morph_new_def default_kargs_def set_attrs_def)

lemma drag_example_attrs_at:
  "attrs_at (drag_example nA nB mx my) [0] =
     Some ((attrs (Morph_new (default_kargs\<lparr>k_name := nA, k_width := 20, k_height := 20,
                                              k_position := (10, 10), k_drag_drop := True\<rparr>)))
             \<lparr>drag_drop := True, drag_position := (15, 15)\<rparr>)"
  "attrs_at (drag_example nA nB mx my) [Suc 0] =
     Some (attrs (Morph_new (default_kargs\<lparr>k_name := nB, k_width := 20, k_height := 20,
                                            k_position := (35, 0)\<rparr>)))"
  by (simp_all add: attrs_at_def drag_example_children)

text \<open>
  Claim C5. A drag step is claimed to leave the position and the drag anchor unchanged when
  the candidate rectangle collides with any other morph under the root that is not hidden. The
  loop of \<^verbatim>\<open>on_mouse_over\<close> leaves out the dragged morph by comparing names
  (\<^verbatim>\<open>bigMorph.name != self.name\<close>), so a morph of the same name never blocks the move, and
  \<open>noname\<close> is the name of every morph that was given none. In the drag scenario the first
  morph is at (10, 10) with the anchor (15, 15) and the pointer at (37, 0): the candidate is
  (max (min (40 - 20) (10 + 22)) 0, max (min (100 - 20) (10 - 15)) 0) = (20, 0), and its
  rectangle collides with the second morph at (35, 0). With both morphs named \<open>noname\<close> the
  first moves to (20, 0) and its anchor becomes (37, 0). With the names \<open>A\<close> and \<open>B\<close> the
  same step leaves position and anchor as they were, and with the pointer at (20, 18), where
  the candidate (15, 13) collides with nothing, the morph moves there. The drag stays active
  throughout.
\<close>
theorem on_mouse_over_same_name_not_blocked:
  "map_option drag_fields (attrs_at (drag_example ''noname'' ''noname'' 37 0) [0]) =
     Some ((10, 10), (10, 10), (15, 15), True) \<and>
   map_option (\<lambda>b. (u_name b, u_is_hidden b, real_position b, u_width b, u_height b))
       (attrs_at (drag_example ''noname'' ''noname'' 37 0) [1]) =
     Some (''noname'', False, (35, 0), 20, 20) \<and>
   mouse_position (drag_example ''noname'' ''noname'' 37 0) = (37, 0) \<and>
   regions4_size drag_env = Some (40, 100) \<and>
   collisionDetect drag_env 20 0 35 0 20 20 20 20 \<and>
   map_option drag_fields
       (attrs_at (snd (on_mouse_over drag_env [0] (drag_example ''noname'' ''noname'' 37 0))) [0]) =
     Some ((20, 0), (20, 0), (37, 0), True) \<and>
   map_option drag_fields
       (attrs_at (snd (on_mouse_over drag_env [0] (drag_example ''A'' ''B'' 37 0))) [0]) =
     Some ((10, 10), (10, 10), (15, 15), True) \<and>
   map_option drag_fields
       (attrs_at (snd (on_mouse_over drag_env [0] (drag_example ''A'' ''B'' 20 18))) [0]) =
     Some ((15, 13), (15, 13), (20, 18), True)"
proof -
  have before: "map_option drag_fields (attrs_at (drag_example ''noname'' ''noname'' 37 0) [0]) =
      Some ((10, 10), (10, 10), (15, 15), True)"
    by (simp add: drag_example_attrs_at drag_fields_def Morph_new_def default_kargs_def)
  have other: "map_option (\<lambda>b. (u_name b, u_is_hidden b, real_position b, u_width b, u_height b))
       (attrs_at (drag_example ''noname'' ''noname'' 37 0) [1]) =
     Some (''noname'', False, (35, 0), 20, 20)"
    by (simp add: drag_example_attrs_at Morph_new_def default_kargs_def)
  have env: "mouse_position (drag_example ''noname'' ''noname'' 37 0) = (37, 0)"
    "regions4_size drag_env = Some (40, 100)"
    "collisionDetect drag_env 20 0 35 0 20 20 20 20"
    by (simp_all add: drag_example_fields drag_env_def example_env_def)
  have same: "map_option drag_fields
       (attrs_at (snd (on_mouse_over drag_env [0] (drag_example ''noname'' ''noname'' 37 0))) [0]) =
     Some ((20, 0), (20, 0), (37, 0), True)"
    using on_mouse_over_drag_result [OF drag_example_self, of "''noname''" "''noname''" 37 0 drag_env]
    by (auto simp: drag_fields_def drag_example_children drag_example_fields blocks_drag_def
        drag_candidate_def position_scaled_def Morph_new_def default_kargs_def example_env_def
        drag_env_def)
  have blocked: "map_option drag_fields
       (attrs_at (snd (on_mouse_over drag_env [0] (drag_example ''A'' ''B'' 37 0))) [0]) =
     Some ((10, 10), (10, 10), (15, 15), True)"
    using on_mouse_over_drag_result [OF drag_example_self, of "''A''" "''B''" 37 0 drag_env]
    by (auto simp: drag_fields_def drag_example_children drag_example_fields blocks_drag_def
        drag_candidate_def position_scaled_def Morph_new_def default_kargs_def example_env_def
        drag_env_def)
  have free: "map_option drag_fields
       (attrs_at (snd (on_mouse_over drag_env [0] (drag_example ''A'' ''B'' 20 18))) [0]) =
     Some ((15, 13), (15, 13), (20, 18), True)"
    using on_mouse_over_drag_result [OF drag_example_self, of "''A''" "''B''" 20 18 drag_env]
    by (auto simp: drag_fields_def drag_example_children drag_example_fields blocks_drag_def
        drag_candidate_def position_scaled_def Morph_new_def default_kargs_def example_env_def
        drag_env_def)
  from before other env same blocked free show ?thesis by blast
qed

section \<open>Mouse out\<close>

text \<open>
  Claim C7. A morph with a bound mouse-out action is claimed to call the mouse-out method of
  that action when a pointer move finds the pointer not over it. \<^verbatim>\<open>on_mouse_out\<close> calls
  \<^verbatim>\<open>self.on_mouse_out_action.on_mouse_in(self)\<close>: for a morph with the action 1 bound for
  mouse-out and the pointer at (500, 500), away from the morph, the dispatch of a pointer
  move enters \<^verbatim>\<open>on_mouse_out\<close> and calls the method \<^verbatim>\<open>on_mouse_in\<close> of the action.
\<close>
theorem on_mouse_out_calls_on_mouse_in:
  "trace mouse_out_example = [] \<and>
   attrs_at mouse_out_example [0] =
     Some ((attrs (Morph_new (default_kargs\<lparr>k_on_mouse_out_action := Some (Action 1)\<rparr>)))
             \<lparr>handles_events := True\<rparr>) \<and>
   (case self_at (snd (World_on_event example_env (move_event 500 500) window_context
                         mouse_out_example)) [0] of
      None \<Rightarrow> False
    | Some (a, ps) \<Rightarrow>
        mouse_over_morph example_env
          (snd (World_on_event example_env (move_event 500 500) window_context mouse_out_example))
          a ps = Returned False) \<and>
   trace (snd (World_on_event example_env (move_event 500 500) window_context mouse_out_example))
     = [HandlerRun [0] ''on_mouse_out'', ActionCall (Action 1) ''on_mouse_in'' [0]]"
  by (simp add: mouse_out_example_def World_on_event_def window_context_def move_event_def Let_def
      World_add_morph_def World_new_def with_attrs_def Morph_new_def default_kargs_def
      on_event_self_def self_at_def attrs_at_def on_mouse_over_def on_mouse_over_drag_def
      on_mouse_over_hover_def mouse_over_morph_def width_def height_def bind_r_def
      on_mouse_out_def log_entry_def)

section \<open>Dispatch: at most one click handler\<close>

lemma grows_refl [simp]: "grows W W n"
  by (simp add: grows_def)

lemma grows_trans: "grows W W1 n \<Longrightarrow> grows W1 W2 m \<Longrightarrow> grows W W2 (n + m)"
  by (auto simp: grows_def)

lemma grows_mono: "grows W W' n \<Longrightarrow> n \<le> m \<Longrightarrow> grows W W' m"
  by (auto simp: grows_def)

lemma on_left_click_step:
  "grows W (snd (on_left_click p W)) 1 \<and>
   consumed_event (snd (on_left_click p W)) = consumed_event W"
  by (auto simp: on_left_click_def Let_def grows_def log_entry_def click_handlers_def
      split: option.splits)

lemma on_left_click_released_step:
  "grows W (snd (on_left_click_released p W)) 1 \<and>
   consumed_event (snd (on_left_click_released p W)) = consumed_event W"
  by (auto simp: on_left_click_released_def Let_def grows_def log_entry_def click_handlers_def
      split: option.splits)

lemma on_right_click_step:
  "grows W (snd (on_right_click p W)) 1 \<and>
   consumed_event (snd (on_right_click p W)) = consumed_event W"
  by (auto simp: on_right_click_def Let_def grows_def log_entry_def click_handlers_def
      split: option.splits)

lemma on_right_click_released_step:
  "grows W (snd (on_right_click_released p W)) 1 \<and>
   consumed_event (snd (on_right_click_released p W)) = consumed_event W"
  by (auto simp: on_right_click_released_def Let_def grows_def log_entry_def click_handlers_def
      split: option.splits)

lemma on_mouse_in_step:
  "grows W (snd (on_mouse_in p W)) 0 \<and>
   consumed_event (snd (on_mouse_in p W)) = consumed_event W"
  by (auto simp: on_mouse_in_def Let_def grows_def log_entry_def click_handlers_def
      split: option.splits morph_class.splits)

lemma on_mouse_out_step:
  "grows W (snd (on_mouse_out p W)) 0 \<and>
   consumed_event (snd (on_mouse_out p W)) = consumed_event W"
  by (auto simp: on_mouse_out_def Let_def grows_def log_entry_def click_handlers_def
      split: option.splits morph_class.splits)

lemma on_mouse_click_handlers_cases:
  "on_mouse_click_handlers ev p W = on_left_click p W \<or>
   on_mouse_click_handlers ev p W = on_left_click_released p W \<or>
   on_mouse_click_handlers ev p W = on_right_click p W \<or>
   on_mouse_click_handlers ev p W = on_right_click_released p W \<or>
   on_mouse_click_handlers ev p W = (Returned (), W)"
proof -
  consider (lp) "etype ev = ''LEFTMOUSE''" "evalue ev = ''PRESS''"
    | (lr) "etype ev = ''LEFTMOUSE''" "evalue ev = ''RELEASE''"
    | (rp) "etype ev = ''RIGHTMOUSE''" "evalue ev = ''PRESS''"
    | (rr) "etype ev = ''RIGHTMOUSE''" "evalue ev = ''RELEASE''"
    | (none) "\<not> (etype ev = ''LEFTMOUSE'' \<and> evalue ev = ''PRESS'')"
        "\<not> (etype ev = ''LEFTMOUSE'' \<and> evalue ev = ''RELEASE'')"
        "\<not> (etype ev = ''RIGHTMOUSE'' \<and> evalue ev = ''PRESS'')"
        "\<not> (etype ev = ''RIGHTMOUSE'' \<and> evalue ev = ''RELEASE'')"
    by blast
  then show ?thesis
  proof cases
    case lp then show ?thesis by (simp add: on_mouse_click_handlers_def)
  next
    case lr then show ?thesis by (simp add: on_mouse_click_handlers_def)
  next
    case rp then show ?thesis by (simp add: on_mouse_click_handlers_def)
  next
    case rr then show ?thesis by (simp add: on_mouse_click_handlers_def)
  next
    case none then show ?thesis by (auto simp: on_mouse_click_handlers_def when_r_def)
  qed
qed

lemma on_mouse_click_handlers_step:
  "grows W (snd (on_mouse_click_handlers ev p W)) 1 \<and>
   consumed_event (snd (on_mouse_click_handlers ev p W)) = consumed_event W"
  using on_mouse_click_handlers_cases [of ev p W] on_left_click_step [of W p]
    on_left_click_released_step [of W p] on_right_click_step [of W p]
    on_right_click_released_step [of W p]
  by (elim disjE) simp_all

lemma on_mouse_click_step:
  assumes "\<not> consumed_event W"
  shows "snd (on_mouse_click E ev p W) = W \<or>
         (consumed_event (snd (on_mouse_click E ev p W)) \<and>
          grows W (snd (on_mouse_click E ev p W)) 1)"
proof -
  let ?W1 = "W\<lparr>consumed_event := True\<rparr>"
  have g0: "grows W ?W1 0" by (simp add: grows_def)
  have "grows W (snd (on_mouse_click_handlers ev p ?W1)) 1 \<and>
        consumed_event (snd (on_mouse_click_handlers ev p ?W1))"
    using on_mouse_click_handlers_step [of ?W1 ev p] grows_trans [OF g0, of _ 1] by simp
  then show ?thesis
    by (simp add: on_mouse_click_def split: option.splits result.splits prod.splits)
qed

lemma on_mouse_over_hover_step:
  "grows W (snd (on_mouse_over_hover E p W)) 0 \<and>
   consumed_event (snd (on_mouse_over_hover E p W)) = consumed_event W"
  using on_mouse_in_step [of W p] on_mouse_out_step [of W p]
  by (simp add: on_mouse_over_hover_def split: option.splits result.splits prod.splits)

lemma on_mouse_over_drag_step:
  "trace (snd (on_mouse_over_drag E p W)) = trace W \<and>
   consumed_event (snd (on_mouse_over_drag E p W)) = consumed_event W"
  by (simp add: on_mouse_over_drag_def split: option.splits result.splits prod.splits)

lemma on_mouse_over_step:
  "grows W (snd (on_mouse_over E p W)) 0 \<and>
   consumed_event (snd (on_mouse_over E p W)) = consumed_event W"
proof -
  let ?W1 = "snd (on_mouse_over_drag E p W)"
  have "grows W ?W1 0" using on_mouse_over_drag_step [of E p W] by (simp add: grows_def)
  then have "grows W (snd (on_mouse_over_hover E p ?W1)) 0"
    using grows_trans [of W ?W1 0 _ 0] on_mouse_over_hover_step [of ?W1 E p] by simp
  then show ?thesis
    using on_mouse_over_drag_step [of E p W] on_mouse_over_hover_step [of ?W1 E p]
    by (simp add: on_mouse_over_def snd_then_r grows_def split: result.splits)
qed

lemma on_event_self_served:
  assumes "served W0 W"
  shows "served W0 (snd (on_event_self E ev p W))"
proof (cases "consumed_event W")
  case True
  then show ?thesis using assms
    by (simp add: on_event_self_def split: option.splits)
next
  case False
  with assms have g: "grows W0 W 0" by (simp add: served_def)
  have over: "served W0 (snd (on_mouse_over E p W))"
    using on_mouse_over_step [of W E p] g False grows_trans [OF g, of _ 0]
    by (simp add: served_def)
  have click: "served W0 (snd (on_mouse_click E ev p W))"
    using on_mouse_click_step [OF False, of E ev p] assms grows_trans [OF g, of _ 1]
    by (auto simp: served_def)
  show ?thesis using assms over click
    by (simp add: on_event_self_def split: option.splits)
qed

lemma on_event_served:
  "served W0 W \<Longrightarrow> served W0 (snd (on_event E t p ev W))"
  and on_event_children_served:
    "served W0 W \<Longrightarrow> served W0 (snd (on_event_children E cs i p ev W))"
proof (induction E t p ev W and E cs i p ev W rule: on_event_on_event_children.induct)
  case (1 E a0 cs p ev W)
  then show ?case
    by (simp add: then_r_keeps on_event_self_served)
next
  case (2 E i p ev W)
  then show ?case by simp
next
  case (3 E c cs i p ev W)
  then show ?case
    by (simp add: then_r_keeps)
qed

lemma World_on_event_once:
  "grows W (snd (World_on_event E ev ctx W)) 1"
proof (cases "region ctx")
  case None
  then show ?thesis by (simp add: World_on_event_def)
next
  case (Some r)
  define W6 where "W6 = W\<lparr>window_position := (region_x r, region_y r),
      window_width := region_width r, window_height := region_height r,
      mouse_position_absolute := (mouse_region_x ev + region_x r, mouse_region_y ev + region_y r),
      event := Some ev, consumed_event := False\<rparr>"
  have eq: "World_on_event E ev ctx W = on_event_children E (children (morph_part W6)) 0 [] ev W6"
    using Some by (simp add: World_on_event_def Let_def W6_def)
  have "served W6 W6" by (simp add: served_def)
  then have "served W6 (snd (on_event_children E (children (morph_part W6)) 0 [] ev W6))"
    by (rule on_event_children_served)
  then have "grows W6 (snd (World_on_event E ev ctx W)) 1"
    by (auto simp: eq served_def intro: grows_mono split: if_splits)
  moreover have "trace W6 = trace W" by (simp add: W6_def)
  ultimately show ?thesis by (simp add: grows_def)
qed

section \<open>Dispatch: descendants first\<close>

lemma on_event_self_consumed:
  "consumed_event W \<Longrightarrow> snd (on_event_self E ev p W) = W"
  by (simp add: on_event_self_def split: option.splits)

lemma on_event_consumed:
  "consumed_event W \<Longrightarrow> snd (on_event E t p ev W) = W"
  and on_event_children_consumed:
  "consumed_event W \<Longrightarrow> snd (on_event_children E cs i p ev W) = W"
proof (induction E t p ev W and E cs i p ev W rule: on_event_on_event_children.induct)
  case (1 E a0 cs p ev W)
  then show ?case
    by (simp add: snd_then_r on_event_self_consumed split: result.splits)
next
  case (2 E i p ev W)
  then show ?case by simp
next
  case (3 E c cs i p ev W)
  then show ?case
    by (simp add: snd_then_r split: result.splits)
qed

lemma logs_under_refl [simp]: "logs_under W W p k"
  by (simp add: logs_under_def)

lemma logs_under_trans:
  "logs_under W W1 p k \<Longrightarrow> logs_under W1 W2 p k \<Longrightarrow> logs_under W W2 p k"
  by (auto simp: logs_under_def)

lemma logs_under_child: "logs_under W W' (i # p) k \<Longrightarrow> logs_under W W' p (Suc k)"
proof -
  assume "logs_under W W' (i # p) k"
  then obtain new where new: "trace W' = trace W @ new"
    "\<forall>e \<in> set new. \<exists>s. addr_of e = s @ i # p \<and> k \<le> length s"
    by (auto simp: logs_under_def)
  have "\<exists>s. addr_of e = s @ p \<and> Suc k \<le> length s" if "e \<in> set new" for e
  proof -
    from new(2) that obtain s where "addr_of e = s @ i # p" "k \<le> length s" by blast
    then have "addr_of e = (s @ [i]) @ p \<and> Suc k \<le> length (s @ [i])" by simp
    then show ?thesis by blast
  qed
  with new(1) show ?thesis unfolding logs_under_def by blast
qed

lemma logs_under_weaken: "logs_under W W' p (Suc k) \<Longrightarrow> logs_under W W' p k"
  unfolding logs_under_def by (meson Suc_leD)

lemma then_r_logs:
  assumes "logs_under W (snd r) p k" and "\<And>W1. logs_under W1 (snd (f W1)) p k"
  shows "logs_under W (snd (then_r r f)) p k"
  using assms logs_under_trans [of W "snd r" p k "snd (f (snd r))"]
  by (simp add: snd_then_r split: result.splits)

lemma handlers_log:
  "logs_under W (snd (on_left_click p W)) p 0"
  "logs_under W (snd (on_left_click_released p W)) p 0"
  "logs_under W (snd (on_right_click p W)) p 0"
  "logs_under W (snd (on_right_click_released p W)) p 0"
  "logs_under W (snd (on_mouse_in p W)) p 0"
  "logs_under W (snd (on_mouse_out p W)) p 0"
  by (auto simp: on_left_click_def on_left_click_released_def on_right_click_def
      on_right_click_released_def on_mouse_in_def on_mouse_out_def
      Let_def logs_under_def log_entry_def split: option.splits morph_class.splits)

lemma on_mouse_click_handlers_log:
  "logs_under W (snd (on_mouse_click_handlers ev p W)) p 0"
  using on_mouse_click_handlers_cases [of ev p W] handlers_log [of W p]
  by (elim disjE) simp_all

lemma on_mouse_click_log: "logs_under W (snd (on_mouse_click E ev p W)) p 0"
proof -
  have "logs_under W (snd (on_mouse_click_handlers ev p (W\<lparr>consumed_event := True\<rparr>))) p 0"
    using on_mouse_click_handlers_log [of "W\<lparr>consumed_event := True\<rparr>" ev p]
    by (simp add: logs_under_def)
  then show ?thesis
    by (simp add: on_mouse_click_def split: option.splits result.splits prod.splits)
qed

lemma on_mouse_over_log: "logs_under W (snd (on_mouse_over E p W)) p 0"
proof -
  have drag: "logs_under W (snd (on_mouse_over_drag E p W)) p 0"
    using on_mouse_over_drag_step [of E p W] by (simp add: logs_under_def)
  have hover: "logs_under W1 (snd (on_mouse_over_hover E p W1)) p 0" for W1
    using handlers_log [of W1 p]
    by (simp add: on_mouse_over_hover_def split: option.splits result.splits prod.splits)
  show ?thesis
    unfolding on_mouse_over_def by (rule then_r_logs [OF drag hover])
qed

lemma on_event_self_log: "logs_under W (snd (on_event_self E ev p W)) p 0"
  using on_mouse_click_log [of W E ev p] on_mouse_over_log [of W E p]
  by (simp add: on_event_self_def split: option.splits)

lemma on_event_log:
  "logs_under W (snd (on_event E t p ev W)) p 0"
  and on_event_children_log:
  "logs_under W (snd (on_event_children E cs i p ev W)) p (Suc 0)"
proof (induction E t p ev W and E cs i p ev W rule: on_event_on_event_children.induct)
  case (1 E a0 cs p ev W)
  show ?case
    unfolding on_event.simps
    by (rule then_r_logs [OF logs_under_weaken [OF 1] on_event_self_log])
next
  case (2 E i p ev W)
  show ?case by simp
next
  case (3 E c cs i p ev W)
  show ?case
    unfolding on_event_children.simps
    by (rule then_r_logs [OF logs_under_child [OF 3(1)] 3(2)])
qed

lemma node_at_None_below: "node_at t q = None \<Longrightarrow> node_at t (s @ q) = None"
  by (induction s) simp_all

lemma drop_eq_ConsD:
  assumes "drop i xs = c # cs"
  shows "i < length xs \<and> xs ! i = c \<and> drop (Suc i) xs = cs"
proof -
  have i: "i < length xs"
  proof (rule ccontr)
    assume "\<not> i < length xs"
    then have "drop i xs = []" by simp
    with assms show False by simp
  qed
  then have "xs ! i # drop (Suc i) xs = drop i xs" by (rule Cons_nth_drop_Suc)
  with assms i show ?thesis by simp
qed

lemma takes_click_valid: "takes_click E W q \<Longrightarrow> node_at (morph_part W) q \<noteq> None"
  by (auto simp: takes_click_def self_at_def split: option.splits)

lemma still_open_then_r:
  assumes "still_open (then_r r f)"
    and "\<And>W1. consumed_event W1 \<Longrightarrow> snd (f W1) = W1"
  shows "still_open r \<and> still_open (f (snd r))"
proof -
  from assms(1) obtain u W1 where r: "r = (Returned u, W1)"
    by (cases r; cases "fst r") (auto simp: still_open_def then_r_def)
  with assms(1) have open2: "still_open (f W1)" by simp
  have "\<not> consumed_event W1"
  proof
    assume c: "consumed_event W1"
    with assms(2) have "snd (f W1) = W1" by simp
    with open2 c show False by (simp add: still_open_def)
  qed
  with r open2 show ?thesis by (simp add: still_open_def)
qed

lemma on_event_self_open:
  assumes button: "etype ev = ''LEFTMOUSE'' \<or> etype ev = ''RIGHTMOUSE''"
    and "still_open (on_event_self E ev p W)"
  shows "snd (on_event_self E ev p W) = W \<and> \<not> takes_click E W p"
proof (cases "self_at W p")
  case None
  with assms show ?thesis by (simp add: on_event_self_def still_open_def)
next
  case (Some x)
  obtain a ps where x: "x = (a, ps)" by (cases x)
  have handlers: "consumed_event (snd (on_mouse_click_handlers ev p (W\<lparr>consumed_event := True\<rparr>)))"
    using on_mouse_click_handlers_step [of "W\<lparr>consumed_event := True\<rparr>" ev p] by simp
  show ?thesis
  proof (cases "handles_events a \<and> \<not> u_is_hidden a \<and> \<not> consumed_event W")
    case False
    with Some x assms show ?thesis
      by (auto simp: on_event_self_def takes_click_def still_open_def)
  next
    case True
    with Some x button have eq: "on_event_self E ev p W = on_mouse_click E ev p W"
      by (auto simp: on_event_self_def)
    show ?thesis
    proof (cases "mouse_over_morph E W a ps")
      case (Raised e)
      with Some x assms(2) show ?thesis
        by (simp add: eq on_mouse_click_def still_open_def)
    next
      case (Returned over)
      show ?thesis
      proof (cases "over \<and> handles_mouse_down a")
        case True
        with Some x Returned have "on_mouse_click E ev p W =
            on_mouse_click_handlers ev p (W\<lparr>consumed_event := True\<rparr>)"
          by (simp add: on_mouse_click_def)
        with handlers assms(2) show ?thesis by (simp add: eq still_open_def)
      next
        case False
        with Some x Returned show ?thesis
          by (auto simp: eq on_mouse_click_def takes_click_def)
      qed
    qed
  qed
qed

lemma on_event_open:
  "etype ev = ''LEFTMOUSE'' \<or> etype ev = ''RIGHTMOUSE'' \<Longrightarrow>
   still_open (on_event E t p ev W) \<Longrightarrow> node_at (morph_part W) p = Some t \<Longrightarrow>
     snd (on_event E t p ev W) = W \<and> (\<forall>s. \<not> takes_click E W (s @ p))"
  and on_event_children_open:
  "etype ev = ''LEFTMOUSE'' \<or> etype ev = ''RIGHTMOUSE'' \<Longrightarrow>
   still_open (on_event_children E cs i p ev W) \<Longrightarrow>
   (\<exists>parent. node_at (morph_part W) p = Some parent \<and> drop i (children parent) = cs) \<Longrightarrow>
     snd (on_event_children E cs i p ev W) = W \<and>
     (\<forall>s j. i \<le> j \<longrightarrow> \<not> takes_click E W (s @ j # p))"
proof (induction E t p ev W and E cs i p ev W rule: on_event_on_event_children.induct)
  case (1 E a0 cs p ev W)
  let ?r1 = "on_event_children E cs 0 p ev W"
  from 1(3) have "still_open (then_r ?r1 (on_event_self E ev p))" by simp
  from still_open_then_r [OF this on_event_self_consumed]
  have o: "still_open ?r1" "still_open (on_event_self E ev p (snd ?r1))" by simp_all
  have "\<exists>parent. node_at (morph_part W) p = Some parent \<and> drop 0 (children parent) = cs"
    using 1(4) by simp
  from 1(1) [OF 1(2) o(1) this]
  have c: "snd ?r1 = W" "\<forall>s j. \<not> takes_click E W (s @ j # p)" by simp_all
  from on_event_self_open [OF 1(2) o(2)] c(1)
  have self: "snd (on_event_self E ev p W) = W" "\<not> takes_click E W p" by simp_all
  have "snd (on_event E (Morph a0 cs) p ev W) = W"
    using o(1) c(1) self(1) by (simp add: snd_then_r still_open_def)
  moreover have "\<not> takes_click E W (s @ p)" for s
  proof (cases s rule: rev_cases)
    case Nil
    with self(2) show ?thesis by simp
  next
    case (snoc s' j)
    with c(2) show ?thesis by simp
  qed
  ultimately show ?case by blast
next
  case (2 E i p ev W)
  from 2(3) obtain parent where parent: "node_at (morph_part W) p = Some parent"
    "drop i (children parent) = []" by blast
  have "\<not> takes_click E W (s @ j # p)" if "i \<le> j" for s j
  proof -
    from parent that have "node_at (morph_part W) (j # p) = None" by simp
    then have "node_at (morph_part W) (s @ j # p) = None" by (rule node_at_None_below)
    then show ?thesis using takes_click_valid by blast
  qed
  then show ?case by simp
next
  case (3 E c cs i p ev W)
  let ?r1 = "on_event E c (i # p) ev W"
  from 3(5) obtain parent where parent: "node_at (morph_part W) p = Some parent"
    "drop i (children parent) = c # cs" by blast
  then have i: "i < length (children parent)" "children parent ! i = c"
    "drop (Suc i) (children parent) = cs"
    using drop_eq_ConsD [OF parent(2)] by simp_all
  from 3(4) have "still_open (then_r ?r1 (on_event_children E cs (Suc i) p ev))" by simp
  from still_open_then_r [OF this on_event_children_consumed]
  have o: "still_open ?r1" "still_open (on_event_children E cs (Suc i) p ev (snd ?r1))"
    by simp_all
  have "node_at (morph_part W) (i # p) = Some c" using parent(1) i by simp
  from 3(1) [OF 3(3) o(1) this]
  have c1: "snd ?r1 = W" "\<forall>s. \<not> takes_click E W (s @ i # p)" by simp_all
  have "\<exists>parent. node_at (morph_part W) p = Some parent \<and> drop (Suc i) (children parent) = cs"
    using parent(1) i(3) by blast
  with 3(2) [of W, OF 3(3)] o(2) c1(1)
  have c2: "snd (on_event_children E cs (Suc i) p ev W) = W"
    "\<forall>s j. Suc i \<le> j \<longrightarrow> \<not> takes_click E W (s @ j # p)" by simp_all
  have "snd (on_event_children E (c # cs) i p ev W) = W"
    using o(1) c1(1) c2(1) by (simp add: snd_then_r still_open_def)
  moreover have "\<not> takes_click E W (s @ j # p)" if "i \<le> j" for s j
    using that c1(2) c2(2) by (cases "j = i") auto
  ultimately show ?case by blast
qed

lemma new_entries_grows:
  assumes "grows W W' n"
  shows "trace W' = trace W @ new_entries W W' \<and>
         length (filter is_click_run (new_entries W W')) \<le> n"
  using assms by (auto simp: grows_def new_entries_def)

lemma new_entries_logs_under:
  assumes "logs_under W W' p (Suc 0)"
  shows "HandlerRun p h \<notin> set (new_entries W W')"
proof
  assume "HandlerRun p h \<in> set (new_entries W W')"
  moreover from assms obtain new where "trace W' = trace W @ new"
    "\<forall>e \<in> set new. \<exists>s. addr_of e = s @ p \<and> Suc 0 \<le> length s"
    by (auto simp: logs_under_def)
  ultimately obtain s where "addr_of (HandlerRun p h) = s @ p" "Suc 0 \<le> length s"
    by (auto simp: new_entries_def)
  then show False by simp
qed

lemma descendant_first:
  assumes button: "etype ev = ''LEFTMOUSE'' \<or> etype ev = ''RIGHTMOUSE''"
    and node: "node_at (morph_part W) p = Some t"
    and below: "s \<noteq> []" "takes_click E W (s @ p)"
  shows "HandlerRun p h \<notin> set (new_entries W (snd (on_event E t p ev W)))"
proof -
  obtain a0 cs where t: "t = Morph a0 cs" by (cases t)
  let ?r1 = "on_event_children E cs 0 p ev W"
  from below(1) obtain s' j where s: "s = s' @ [j]" by (cases s rule: rev_cases) auto
  have not_open: "\<not> still_open ?r1"
  proof
    assume "still_open ?r1"
    moreover have "\<exists>parent. node_at (morph_part W) p = Some parent \<and>
        drop 0 (children parent) = cs"
      using node t by simp
    ultimately have "\<forall>s j. 0 \<le> j \<longrightarrow> \<not> takes_click E W (s @ j # p)"
      using on_event_children_open [OF button] by blast
    with below(2) s show False by simp
  qed
  have "snd (on_event E t p ev W) = snd ?r1"
  proof (cases "fst ?r1")
    case (Raised e)
    then show ?thesis by (simp add: t snd_then_r)
  next
    case (Returned u)
    with not_open have "consumed_event (snd ?r1)" by (simp add: still_open_def)
    with Returned show ?thesis by (simp add: t snd_then_r on_event_self_consumed)
  qed
  then show ?thesis
    using new_entries_logs_under [OF on_event_children_log [of W E cs 0 p ev]] by simp
qed

text \<open>
  Claim C2. During one dispatch of \<^verbatim>\<open>World.on_event\<close> the trace is only extended, and by at
  most one run of a click handler: once a morph has consumed the event, no other morph's click
  handler runs. Descendants come first: in \<^verbatim>\<open>Morph.on_event\<close> for a pointer-button event,
  when some morph strictly below the address \<open>p\<close> takes the click in the world the call starts
  from, the call adds no run of a handler of the morph at \<open>p\<close> itself.
\<close>
theorem dispatch_first_consumer_wins:
  "trace (snd (World_on_event E ev ctx W)) =
     trace W @ new_entries W (snd (World_on_event E ev ctx W)) \<and>
   length (filter is_click_run (new_entries W (snd (World_on_event E ev ctx W)))) \<le> 1 \<and>
   ((etype ev = ''LEFTMOUSE'' \<or> etype ev = ''RIGHTMOUSE'') \<and>
    node_at (morph_part W1) p = Some t \<and> s \<noteq> [] \<and> takes_click E W1 (s @ p) \<longrightarrow>
      (\<forall>h. HandlerRun p h \<notin> set (new_entries W1 (snd (on_event E t p ev W1)))))"
  using new_entries_grows [OF World_on_event_once [of W E ev ctx]] descendant_first
  by blast

lemma click_example_eval:
  "morph_part click_example =
     Morph ((attrs (Morph_new default_kargs))\<lparr>u_width := 2000, u_height := 2000\<rparr>) [click_panel]"
  "trace click_example = []"
  "draw_area_position click_example = (0, 0)"
  by (simp_all add: click_example_def World_add_morph_def World_new_def Let_def
      click_panel_def click_button_def add_morph_def ButtonMorph_new_def Morph_new_def named_def
      default_kargs_def)

lemma click_panel_eval:
  "children click_panel = [click_button]" "children click_button = []"
  by (simp_all add: click_panel_def click_button_def add_morph_def ButtonMorph_new_def
      Morph_new_def Let_def)

lemma click_ready_dispatch:
  "World_on_event example_env (press_event 20 20) window_context click_example =
     on_event_children example_env [click_panel] 0 [] (press_event 20 20) click_ready"
  by (simp add: World_on_event_def window_context_def Let_def click_ready_def press_event_def
      click_example_eval)

lemma on_event_children_Nil [simp]:
  "on_event_children E [] i p ev = (\<lambda>W. (Returned (), W))"
  by (simp add: fun_eq_iff)

lemma click_ready_panel:
  "on_event_children example_env [click_panel] 0 [] (press_event 20 20) click_ready =
     on_event example_env click_panel [0] (press_event 20 20) click_ready"
  by simp

lemma click_ready_part: "morph_part click_ready = morph_part click_example"
  by (simp add: click_ready_def)

lemma click_ready_eval:
  "trace click_ready = []"
  "consumed_event click_ready = False"
  "mouse_position_absolute click_ready = (20, 20)"
  "draw_area_position click_ready = (0, 0)"
  by (simp_all add: click_ready_def click_example_eval)

lemma click_ready_nodes:
  "node_at (morph_part click_ready) [0] = Some click_panel"
  "node_at (morph_part click_ready) [0, 0] = Some click_button"
  by (simp_all add: click_ready_part click_example_eval click_panel_eval)

lemma click_ready_takes:
  "takes_click example_env click_ready [0, 0]"
  "takes_click example_env click_ready [0]"
  by (simp_all add: takes_click_def self_at_def click_ready_nodes click_ready_eval
      click_ready_part click_example_eval click_panel_eval mouse_over_morph_def width_def height_def bind_r_def
      click_panel_def click_button_def add_morph_def ButtonMorph_new_def Morph_new_def named_def
      default_kargs_def Let_def)

lemma on_event_unfold:
  "on_event E t p ev W =
     then_r (on_event_children E (children t) 0 p ev W) (on_event_self E ev p)"
  by (cases t) simp

lemma click_button_served:
  "on_event example_env click_button [0, 0] (press_event 20 20) click_ready =
     (Returned (),
      click_ready\<lparr>consumed_event := True, trace := [HandlerRun [0, 0] ''on_left_click'']\<rparr>)"
proof -
  have self: "self_at click_ready [0, 0] =
      Some (attrs click_button, [attrs click_panel, attrs (morph_part click_ready)])"
    by (simp add: self_at_def click_ready_part click_example_eval click_panel_eval)
  have over: "mouse_over_morph example_env click_ready (attrs click_button)
       [attrs click_panel, attrs (morph_part click_ready)] = Returned True"
    using click_ready_takes(1) by (simp add: takes_click_def self)
  have flags: "handles_events (attrs click_button)" "\<not> u_is_hidden (attrs click_button)"
    "handles_mouse_down (attrs click_button)" "on_left_click_action (attrs click_button) = None"
    "\<not> drag_drop (attrs click_button)" "\<not> handles_drag_drop (attrs click_button)"
    by (simp_all add: click_button_def ButtonMorph_new_def Morph_new_def default_kargs_def)
  have self': "self_at (log_entry e (click_ready\<lparr>consumed_event := True\<rparr>)) [0, 0] =
      Some (attrs click_button, [attrs click_panel, attrs (morph_part click_ready)])" for e
    by (simp add: self_at_def log_entry_def click_ready_part click_example_eval click_panel_eval)
  have click: "on_left_click [0, 0] (click_ready\<lparr>consumed_event := True\<rparr>) =
      (Returned (),
       click_ready\<lparr>consumed_event := True, trace := [HandlerRun [0, 0] ''on_left_click'']\<rparr>)"
    by (simp add: on_left_click_def Let_def self' flags) (simp add: log_entry_def click_ready_eval)
  show ?thesis
    by (simp add: on_event_unfold click_panel_eval on_event_self_def self flags click_ready_eval
        press_event_def on_mouse_click_def over on_mouse_click_handlers_def click)
qed

lemma click_panel_served:
  "on_event example_env click_panel [0] (press_event 20 20) click_ready =
     (Returned (),
      click_ready\<lparr>consumed_event := True, trace := [HandlerRun [0, 0] ''on_left_click'']\<rparr>)"
proof -
  let ?W = "click_ready\<lparr>consumed_event := True, trace := [HandlerRun [0, 0] ''on_left_click'']\<rparr>"
  have "self_at ?W [0] = Some (attrs click_panel, [attrs (morph_part click_ready)])"
    by (simp add: self_at_def click_ready_part click_example_eval click_panel_eval)
  then have "on_event_self example_env (press_event 20 20) [0] ?W = (Returned (), ?W)"
    by (simp add: on_event_self_def)
  then show ?thesis
    by (simp add: on_event_unfold [of _ click_panel] click_panel_eval click_button_served)
qed

text \<open>
  Witness for C2: a press at (20, 20), over the button and over the panel that contains it.
  The button, at address \<open>[0, 0]\<close>, takes the click; the only handler run of the dispatch is
  its \<^verbatim>\<open>on_left_click\<close>, and the panel at \<open>[0]\<close> runs none.
\<close>
theorem dispatch_first_consumer_wins_witness:
  "trace (snd (World_on_event example_env (press_event 20 20) window_context click_example)) =
     [HandlerRun [0, 0] ''on_left_click''] \<and>
   node_at (morph_part click_ready) [0] = Some click_panel \<and>
   takes_click example_env click_ready [0] \<and>
   takes_click example_env click_ready [0, 0] \<and>
   new_entries click_ready
     (snd (on_event example_env click_panel [0] (press_event 20 20) click_ready)) =
     [HandlerRun [0, 0] ''on_left_click'']"
  using dispatch_first_consumer_wins [of example_env "press_event 20 20" window_context
      click_example click_ready "[0]" click_panel "[0]"]
  by (simp add: click_ready_dispatch click_panel_served click_ready_takes
      new_entries_def click_ready_eval click_ready_part click_example_eval click_panel_eval)

end
